theory Spec2Isabelle
  imports Main "HOL-Library.Word" "HOL-Library.Sublist"
begin

section \<open>The Comment Map of WriteExpressions\<close>

text \<open>
  \<^verbatim>\<open>Comments\<close> is a \<^verbatim>\<open>std::map<unsigned int, std::string>\<close>: a source line
  (an \<^verbatim>\<open>unsigned int\<close>, here a 32-bit word) is mapped to the annotation text
  accumulated for it. A line without an entry is \<open>None\<close>.
\<close>

type_synonym line = "32 word"

type_synonym comments = "line \<rightharpoonup> string"

text \<open>
  \<^verbatim>\<open>std::string::find(str)\<close>: the position of the first occurrence of \<open>c\<close> in
  \<open>t\<close>, counted from \<open>pos\<close>; \<open>None\<close> stands for \<^verbatim>\<open>std::string::npos\<close>. The
  empty string is found at position 0 of every string, also of the empty one.
\<close>

fun find_from :: "nat \<Rightarrow> string \<Rightarrow> string \<Rightarrow> nat option" where
  "find_from pos [] c = (if c = [] then Some pos else None)"
| "find_from pos (x # t) c =
     (if prefix c (x # t) then Some pos else find_from (Suc pos) t c)"

definition find_str :: "string \<Rightarrow> string \<Rightarrow> nat option" where
  "find_str t c = find_from 0 t c"

text \<open>
  \<^verbatim>\<open>
  void WriteExpressions::addCommentToLine (std::string Comment, unsigned int Line) {
    if (Comments.count(Line) == 0)
      Comments[Line] = Comment;
    else if (Comments[Line].find(Comment) == std::string::npos)
      Comments[Line] += Comment;
  }
  \<close>
\<close>

definition addCommentToLine :: "string \<Rightarrow> line \<Rightarrow> comments \<Rightarrow> comments" where
  "addCommentToLine Comment Line Comments =
     (case Comments Line of
        None \<Rightarrow> Comments(Line \<mapsto> Comment)
      | Some t \<Rightarrow>
          (if find_str t Comment = None then Comments(Line \<mapsto> t @ Comment)
           else Comments))"

text \<open>
  \<^verbatim>\<open>copyComments\<close> walks a \<^verbatim>\<open>std::map<unsigned int, std::string>\<close> in iteration
  order and inserts every entry; the map walked is given as the list of its
  (line, text) entries in that order.
\<close>

fun copyComments :: "(line \<times> string) list \<Rightarrow> comments \<Rightarrow> comments" where
  "copyComments [] Comments = Comments"
| "copyComments ((Line, Comment) # CommentsIn) Comments =
     copyComments CommentsIn (addCommentToLine Comment Line Comments)"

text \<open>The text accumulated for a line; a line without an entry has none.\<close>

definition lineText :: "comments \<Rightarrow> line \<Rightarrow> string" where
  "lineText Comments Line = (case Comments Line of None \<Rightarrow> [] | Some t \<Rightarrow> t)"

text \<open>
  An insertion is dropped by the substring rule when the line has an entry and
  \<^verbatim>\<open>find\<close> locates the fragment in its text.
\<close>

definition dropped :: "string \<Rightarrow> line \<Rightarrow> comments \<Rightarrow> bool" where
  "dropped Comment Line Comments =
     (case Comments Line of None \<Rightarrow> False | Some t \<Rightarrow> find_str t Comment \<noteq> None)"

section \<open>The program representation\<close>

text \<open>
  The pass reads LLVM's IR through a few accessors only. An instruction has a
  value name, may be a \<^verbatim>\<open>CallInst\<close> (then \<open>getCalledFunction\<close> is the name of
  the callee, \<open>None\<close> for the null pointer of an indirect call) and carries
  metadata nodes by kind; \<^verbatim>\<open>getMetadata(kind)\<close> is a null pointer when the kind
  is absent.
\<close>

datatype MDNode = MDNode

datatype Instruction = Instruction
  (getInstName: string)
  (isCallInst: bool)
  (getCalledFunction: "string option")
  (metadata: "(string \<times> MDNode) list")

definition getMetadata :: "Instruction \<Rightarrow> string \<Rightarrow> MDNode option" where
  "getMetadata I kind = map_of (metadata I) kind"

text \<open>
  A basic block: its non-terminator instructions and its terminator; iterating
  over the block visits all of them in order.
\<close>

datatype BasicBlock = BasicBlock
  (getBlockName: string)
  (body: "Instruction list")
  (getTerminator: Instruction)

definition instructions :: "BasicBlock \<Rightarrow> Instruction list" where
  "instructions BB = body BB @ [getTerminator BB]"

text \<open>
  A loop of the loop nest: header, latch (\<open>None\<close> for the null pointer of a
  loop without a unique latch), the line of its start location, its sub-loops
  and its blocks.
\<close>

datatype Loop = Loop
  (getHeader: BasicBlock)
  (getLoopLatch: "BasicBlock option")
  (getStartLoc: line)
  (getSubLoops: "Loop list")
  (getBlocks: "BasicBlock list")

text \<open>
  A region of the region tree: entering block (\<open>None\<close> for the null pointer),
  top-level flag, blocks, and child regions.
\<close>

datatype Region = Region
  (getEnteringBlock: "BasicBlock option")
  (isTopLevelRegion: bool)
  (blocks: "BasicBlock list")
  (subregions: "Region list")

datatype Function = Function
  (getName: string)
  (isDeclaration: bool)
  (isIntrinsic: bool)
  (hasAvailableExternallyLinkage: bool)
  (getBasicBlocks: "BasicBlock list")

text \<open>
  The module: the functions a call instruction can name. A callee is resolved
  by name.
\<close>

type_synonym Module = "Function list"

definition getFunction :: "Module \<Rightarrow> string \<Rightarrow> Function option" where
  "getFunction M n = List.find (\<lambda>F. getName F = n) M"

section \<open>Configuration and state of the pass\<close>

text \<open>The command-line options \<^verbatim>\<open>Emit-Parallel\<close>, \<^verbatim>\<open>Emit-OMP\<close>,
  \<^verbatim>\<open>Discard-Divergent\<close> and \<^verbatim>\<open>Memory-Coalescing\<close>.\<close>

record config =
  ClEmitParallel :: bool
  ClEmitOMP :: char
  ClDivergent :: bool
  ClCoalescing :: bool

definition ACC :: char where "ACC = CHR ''0''"
definition OMP_GPU :: char where "OMP_GPU = CHR ''1''"
definition OMP_CPU :: char where "OMP_CPU = CHR ''2''"

definition ERROR_VALUE :: line where "ERROR_VALUE = - 1"

text \<open>
  A \<^verbatim>\<open>RecoverCode\<close> object is created for every annotation attempt and receives
  the sequence number of its name (\<^verbatim>\<open>"AI" + std::to_string(NewVars)\<close>) and the
  loop or region to analyse. The objects created are recorded in order.
\<close>

datatype target = OfLoop Loop | OfRegion Region

record descriptor =
  sequence :: int
  computationName :: string
  analysed :: target
  atLine :: line

text \<open>
  Modelled from the spec: the declaration of \<^verbatim>\<open>NewVars\<close> is in
  \<^verbatim>\<open>writeExpressions.h\<close>, which is not among the sources. The spec calls it a
  monotonically increasing sequence number; it is taken as an unbounded
  integer.

  The state holds the members of \<^verbatim>\<open>WriteExpressions\<close> that the pass updates,
  the statistics counters (\<^verbatim>\<open>STATISTIC\<close>, an \<^verbatim>\<open>unsigned\<close>), the side-effect flags
  \<^verbatim>\<open>RegionsRangeData[R].HasFullSideEffectInfo\<close> held by the pointer-range
  analysis, and the descriptors created so far.
\<close>

record state =
  Comments :: comments
  routines :: "string \<rightharpoonup> bool"
  NewVars :: int
  Expression :: "string list"
  isknowedLoop :: "Loop \<rightharpoonup> bool"
  numL :: "32 word"
  numAL :: "32 word"
  numWL :: "32 word"
  numFLC :: "32 word"
  RegionsRangeData :: "Region \<Rightarrow> bool"
  descriptors :: "descriptor list"

section \<open>Safety predicates and the parallel-marker policy\<close>

text \<open>
  \<^verbatim>\<open>
  bool WriteExpressions::isLoopParallel (Loop *L) {
    BasicBlock *BB = L->getLoopLatch();
    if (BB == nullptr) return false;
    MD = BB->getTerminator()->getMetadata("isParallel");
    MDDivergent = BB->getTerminator()->getMetadata("isDivergent");
    if (!MD) return false;
    if (ClDivergent && MDDivergent != nullptr) return false;
    return true;
  }
  \<close>
\<close>

definition isLoopParallel :: "config \<Rightarrow> Loop \<Rightarrow> bool" where
  "isLoopParallel cfg L =
     (case getLoopLatch L of
        None \<Rightarrow> False
      | Some BB \<Rightarrow>
          (let MD = getMetadata (getTerminator BB) ''isParallel'';
               MDDivergent = getMetadata (getTerminator BB) ''isDivergent''
           in if MD = None then False
              else if ClDivergent cfg \<and> MDDivergent \<noteq> None then False
              else True))"

text \<open>The directive text built at the head of \<^verbatim>\<open>denotateLoopParallel\<close>.\<close>

definition loopPragma :: "config \<Rightarrow> string \<Rightarrow> string" where
  "loopPragma cfg condition =
     (if ClEmitOMP cfg = OMP_GPU \<or> ClEmitOMP cfg = OMP_CPU
      then ''#pragma omp parallel for '' @ condition @ ''\<newline>''
      else ''#pragma acc loop independent '' @ condition @ ''\<newline>'')"

text \<open>
  \<^verbatim>\<open>
  void WriteExpressions::denotateLoopParallel (Loop *L, std::string condition) {
    std::string pragma = ...;
    BasicBlock *BB = L->getLoopLatch();
    if (BB == nullptr) return;
    MD = BB->getTerminator()->getMetadata("isParallel");
    MDDivergent = BB->getTerminator()->getMetadata("isDivergent");
    if (ClDivergent && MDDivergent != nullptr) return;
    if (!MD) return;
    int line = L->getStartLoc()->getLine();
    numWL++;
    addCommentToLine(pragma, line);
    for (Loop *SubLoop : L->getSubLoops())
      denotateLoopParallel(SubLoop, condition);
  }
  \<close>
  The second function is the loop over the sub-loops.
\<close>

fun denotateLoopParallel :: "config \<Rightarrow> Loop \<Rightarrow> string \<Rightarrow> state \<Rightarrow> state"
  and denotateLoopParallel_SubLoops ::
    "config \<Rightarrow> Loop list \<Rightarrow> string \<Rightarrow> state \<Rightarrow> state" where
  "denotateLoopParallel cfg (Loop header latch startLine SubLoops bs) condition s =
     (case latch of
        None \<Rightarrow> s
      | Some BB \<Rightarrow>
          (let MD = getMetadata (getTerminator BB) ''isParallel'';
               MDDivergent = getMetadata (getTerminator BB) ''isDivergent''
           in if ClDivergent cfg \<and> MDDivergent \<noteq> None then s
              else if MD = None then s
              else denotateLoopParallel_SubLoops cfg SubLoops condition
                     (s\<lparr>numWL := numWL s + 1,
                        Comments := addCommentToLine (loopPragma cfg condition) startLine
                                      (Comments s)\<rparr>)))"
| "denotateLoopParallel_SubLoops cfg [] condition s = s"
| "denotateLoopParallel_SubLoops cfg (SubLoop # SubLoops) condition s =
     denotateLoopParallel_SubLoops cfg SubLoops condition
       (denotateLoopParallel cfg SubLoop condition s)"

text \<open>A loop together with all the loops nested in it.\<close>

fun loopNest :: "Loop \<Rightarrow> Loop list" where
  "loopNest (Loop header latch startLine SubLoops bs) =
     Loop header latch startLine SubLoops bs # concat (map loopNest SubLoops)"

section \<open>The Routine Closure Builder\<close>

text \<open>
  Dereferencing a null pointer ends the run: the callee of an indirect call
  (\<^verbatim>\<open>CI->getCalledFunction()->getName()\<close>), or the first block of a region
  without blocks (\<^verbatim>\<open>*(R->block_begin())\<close>).
\<close>

datatype error = NullCallee | EmptyRegion

text \<open>
  \<^verbatim>\<open>
  void WriteExpressions::findACCroutines (Function *F) {
    if (F->isDeclaration() || F->isIntrinsic() ||
        F->hasAvailableExternallyLinkage() || (ClEmitOMP != ACC))
      return;
    if (routines.count(F->getName()) == 0)
      routines[F->getName()] = true;
    for (auto BB = F->begin(), BE = F->end(); BB != BE; BB++)
      for (auto I = BB->begin(), IE = BB->end(); I != IE; I++)
        if (CallInst *CI = dyn_cast<CallInst>(I))
          if (routines.count(CI->getCalledFunction()->getName()) == 0)
            findACCroutines(CI->getCalledFunction());
  }
  \<close>
  The second function is the pair of loops over the instructions, which
  \<^verbatim>\<open>regionIdentify\<close> and \<^verbatim>\<open>writeComputation\<close> repeat over the blocks of a loop
  and of a region. The registry \<^verbatim>\<open>routines\<close> is a \<^verbatim>\<open>std::map<std::string, bool>\<close>.
\<close>

function findACCroutines ::
    "config \<Rightarrow> Module \<Rightarrow> Function \<Rightarrow> (string \<rightharpoonup> bool) \<Rightarrow> error + (string \<rightharpoonup> bool)"
  and findACCroutines_calls ::
    "config \<Rightarrow> Module \<Rightarrow> Instruction list \<Rightarrow> (string \<rightharpoonup> bool) \<Rightarrow>
       error + (string \<rightharpoonup> bool)"
where
  "findACCroutines cfg M F r =
     (if isDeclaration F \<or> isIntrinsic F \<or> hasAvailableExternallyLinkage F \<or>
         ClEmitOMP cfg \<noteq> ACC
      then Inr r
      else findACCroutines_calls cfg M (concat (map instructions (getBasicBlocks F)))
             (if r (getName F) = None then r(getName F \<mapsto> True) else r))"
| "findACCroutines_calls cfg M [] r = Inr r"
| "findACCroutines_calls cfg M (I # Is) r =
     (if isCallInst I
      then (case getCalledFunction I of
              None \<Rightarrow> Inl NullCallee
            | Some n \<Rightarrow>
                (case getFunction M n of
                   None \<Rightarrow> Inl NullCallee
                 | Some F \<Rightarrow>
                     (if r (getName F) = None
                      then (case findACCroutines cfg M F r of
                              Inl e \<Rightarrow> Inl e
                            | Inr r' \<Rightarrow> findACCroutines_calls cfg M Is r')
                      else findACCroutines_calls cfg M Is r)))
      else findACCroutines_calls cfg M Is r)"
  by pat_completeness auto

text \<open>
  Termination. A recursive call is made for a function of the module that is
  not registered yet, and it registers that function, so the number of
  unregistered functions of the module falls. For the loop to continue after a
  call returns, the registry must not have lost entries.
\<close>

definition unregistered :: "Module \<Rightarrow> (string \<rightharpoonup> bool) \<Rightarrow> nat" where
  "unregistered M r = card (getName ` set M - dom r)"

lemma getFunction_Some: "getFunction M n = Some F \<Longrightarrow> F \<in> set M \<and> getName F = n"
  by (auto simp: getFunction_def find_Some_iff)

lemma findACCroutines_grows_dom:
  "findACCroutines_findACCroutines_calls_dom (Inl (cfg, M, F, r)) \<Longrightarrow>
     findACCroutines cfg M F r = Inr r' \<Longrightarrow> dom r \<subseteq> dom r'"
  "findACCroutines_findACCroutines_calls_dom (Inr (cfg, M, Is, r)) \<Longrightarrow>
     findACCroutines_calls cfg M Is r = Inr r' \<Longrightarrow> dom r \<subseteq> dom r'"
proof (induction cfg M F r and cfg M Is r arbitrary: r' and r'
    rule: findACCroutines_findACCroutines_calls.pinduct)
  case (1 cfg M F r)
  show ?case
  proof (cases "isDeclaration F \<or> isIntrinsic F \<or> hasAvailableExternallyLinkage F \<or>
      ClEmitOMP cfg \<noteq> ACC")
    case True
    with 1(1,3) show ?thesis by (simp add: findACCroutines.psimps)
  next
    case False
    let ?r1 = "if r (getName F) = None then r(getName F \<mapsto> True) else r"
    from False 1(1,3) have
      "findACCroutines_calls cfg M (concat (map instructions (getBasicBlocks F))) ?r1 = Inr r'"
      by (simp add: findACCroutines.psimps)
    then have "dom ?r1 \<subseteq> dom r'" by (rule 1(2) [OF False])
    moreover have "dom r \<subseteq> dom ?r1" by auto
    ultimately show ?thesis by blast
  qed
next
  case (2 cfg M r)
  then show ?case by (simp add: findACCroutines_calls.psimps)
next
  case (3 cfg M I Is r)
  note eq = 3(6) [unfolded findACCroutines_calls.psimps(2) [OF 3(1)]]
  show ?case
  proof (cases "isCallInst I")
    case False
    with eq have "findACCroutines_calls cfg M Is r = Inr r'" by simp
    then show ?thesis by (rule 3(5) [OF False])
  next
    case True
    with eq obtain n F where n: "getCalledFunction I = Some n" and F: "getFunction M n = Some F"
      by (auto split: option.splits)
    show ?thesis
    proof (cases "r (getName F) = None")
      case False
      with eq True n F have "findACCroutines_calls cfg M Is r = Inr r'" by simp
      then show ?thesis by (rule 3(4) [OF True n F False])
    next
      case None: True
      with eq True n F obtain r1 where r1: "findACCroutines cfg M F r = Inr r1"
        and rest: "findACCroutines_calls cfg M Is r1 = Inr r'"
        by (auto split: sum.splits)
      have "dom r \<subseteq> dom r1" using r1 by (rule 3(2) [OF True n F None])
      moreover have "dom r1 \<subseteq> dom r'" using rest by (rule 3(3) [OF True n F None r1])
      ultimately show ?thesis by blast
    qed
  qed
qed

lemma unregistered_mono: "dom r \<subseteq> dom r' \<Longrightarrow> unregistered M r' \<le> unregistered M r"
  unfolding unregistered_def by (intro card_mono) auto

lemma unregistered_less:
  "F \<in> set M \<Longrightarrow> r (getName F) = None \<Longrightarrow>
     unregistered M (r(getName F \<mapsto> True)) < unregistered M r"
  unfolding unregistered_def by (intro psubset_card_mono) auto

lemma findACCroutines_total: "All findACCroutines_findACCroutines_calls_dom"
proof (relation "inv_image (less_than <*lex*> less_than)
    (\<lambda>x. case x of
        Inl (cfg, M, F, r) \<Rightarrow>
          (unregistered M r,
           if F \<in> set M \<and> r (getName F) = None then 0
           else length (concat (map instructions (getBasicBlocks F))) + 2)
      | Inr (cfg, M, Is, r) \<Rightarrow> (unregistered M r, length Is + 1))", goal_cases)
  case 1
  show ?case by (intro wf_inv_image wf_lex_prod wf_less_than)
next
  case (2 cfg M F r)
  show ?case
  proof (cases "F \<in> set M \<and> r (getName F) = None")
    case True
    then show ?thesis using unregistered_less [of F M r] by simp
  next
    case False
    have "unregistered M (r(getName F \<mapsto> True)) \<le> unregistered M r"
      by (rule unregistered_mono) auto
    with False show ?thesis by auto
  qed
next
  case (3 cfg M I Is r n F)
  then have "F \<in> set M" using getFunction_Some by blast
  with 3 show ?case by simp
next
  case (4 cfg M I Is r n F r')
  have "unregistered M r' \<le> unregistered M r"
    using findACCroutines_grows_dom(1) [of cfg M F r r'] unregistered_mono [of r r' M] 4
    by blast
  then show ?case by auto
next
  case (5 cfg M I Is r n F)
  then show ?case by simp
next
  case (6 cfg M I Is r)
  then show ?case by simp
qed

termination findACCroutines
  by (rule findACCroutines_total)

declare findACCroutines.simps [simp del]

section \<open>The analyses consumed by the pass\<close>

text \<open>\<^verbatim>\<open>std::to_string\<close> of an \<^verbatim>\<open>int\<close>: its decimal digits, with a sign when negative.\<close>

definition digit_char :: "nat \<Rightarrow> char" where
  "digit_char d = char_of (48 + d)"

fun digits :: "nat \<Rightarrow> string" where
  "digits n = (if n < 10 then [digit_char n] else digits (n div 10) @ [digit_char (n mod 10)])"

declare digits.simps [simp del]

definition to_string :: "int \<Rightarrow> string" where
  "to_string i = (if i < 0 then CHR ''-'' # digits (nat (- i)) else digits (nat i))"

text \<open>
  What a \<^verbatim>\<open>RecoverCode\<close> object holds after \<^verbatim>\<open>analyzeLoop\<close> or \<^verbatim>\<open>analyzeRegion\<close>:
  the value returned, the restrict condition written to \<^verbatim>\<open>test\<close>, the entries of
  its \<^verbatim>\<open>Comments\<close> map in iteration order, and its \<^verbatim>\<open>restric\<close> flag.
\<close>

record RecoverCode =
  RC_analyzed :: bool
  RC_test :: string
  RC_Comments :: "(line \<times> string) list"
  RC_restric :: bool

text \<open>
  The analyses of one function, obtained by \<^verbatim>\<open>runOnFunction\<close>: loop info
  (\<^verbatim>\<open>li\<close>), region info (\<^verbatim>\<open>rp\<close>), the scope tree (\<^verbatim>\<open>st\<close>), the region
  reconstructor (\<^verbatim>\<open>rr\<close>), the pointer-range analysis (\<^verbatim>\<open>ptrRA\<close>) and the two
  entry points of \<^verbatim>\<open>RecoverCode\<close>. Their code is outside this file, so each is a
  parameter. \<open>getTopLevelRegion\<close> is the root of the region tree, where the walk
  along \<^verbatim>\<open>getParent\<close> in \<^verbatim>\<open>functionIdentify\<close> ends. \<open>analyzeReducedRegion\<close>
  gives the side-effect flags after \<^verbatim>\<open>ptrRA->analyzeReducedRegion(R)\<close>. The
  \<^verbatim>\<open>RecoverCode\<close> entry points get the name set by \<^verbatim>\<open>setNAME\<close>, the target set by
  \<^verbatim>\<open>setOMP\<close>, the loop or region, the line, and the side-effect flags.
\<close>

record analyses =
  getLoopFor :: "BasicBlock \<Rightarrow> Loop option"
  getRegionFor :: "BasicBlock \<Rightarrow> Region"
  getTopLevelRegion :: Region
  isSafetlyRegionLoops :: "Region \<Rightarrow> bool"
  getStartRegionLoops :: "Region \<Rightarrow> line"
  getEndRegionLoops :: "Region \<Rightarrow> line"
  isSafetly :: "Region \<Rightarrow> bool"
  returnReducedRegion :: "Region \<Rightarrow> Region option"
  HasFullSideEffectInfo :: "Region \<Rightarrow> bool"
  analyzeReducedRegion :: "Region \<Rightarrow> (Region \<Rightarrow> bool) \<Rightarrow> (Region \<Rightarrow> bool)"
  analyzeLoop :: "string \<Rightarrow> char \<Rightarrow> Loop \<Rightarrow> line \<Rightarrow> (Region \<Rightarrow> bool) \<Rightarrow> RecoverCode"
  analyzeRegion :: "string \<Rightarrow> char \<Rightarrow> Region \<Rightarrow> line \<Rightarrow> (Region \<Rightarrow> bool) \<Rightarrow> RecoverCode"

section \<open>Statistics and the remaining safety predicates\<close>

text \<open>
  \<^verbatim>\<open>
  void WriteExpressions::marknumAL (Loop *L) {
    numAL++;
    for (Loop *SubLoop : L->getSubLoops()) marknumAL(SubLoop);
  }
  \<close>
  and the same for \<^verbatim>\<open>marknumWL\<close> with \<^verbatim>\<open>numWL\<close>.
\<close>

fun marknumAL :: "Loop \<Rightarrow> state \<Rightarrow> state"
  and marknumAL_SubLoops :: "Loop list \<Rightarrow> state \<Rightarrow> state" where
  "marknumAL (Loop header latch startLine SubLoops bs) s =
     marknumAL_SubLoops SubLoops (s\<lparr>numAL := numAL s + 1\<rparr>)"
| "marknumAL_SubLoops [] s = s"
| "marknumAL_SubLoops (SubLoop # SubLoops) s =
     marknumAL_SubLoops SubLoops (marknumAL SubLoop s)"

fun marknumWL :: "Loop \<Rightarrow> state \<Rightarrow> state"
  and marknumWL_SubLoops :: "Loop list \<Rightarrow> state \<Rightarrow> state" where
  "marknumWL (Loop header latch startLine SubLoops bs) s =
     marknumWL_SubLoops SubLoops (s\<lparr>numWL := numWL s + 1\<rparr>)"
| "marknumWL_SubLoops [] s = s"
| "marknumWL_SubLoops (SubLoop # SubLoops) s =
     marknumWL_SubLoops SubLoops (marknumWL SubLoop s)"

text \<open>
  \<^verbatim>\<open>
  bool WriteExpressions::isLoopAnalyzable (Loop *L){
    Region *r = rp->getRegionInfo().getRegionFor(L->getHeader());
    if (!ptrRA->RegionsRangeData[r].HasFullSideEffectInfo) return false;
    for (Loop::block_iterator I = L->block_begin(), IE = L->block_end(); I != IE; ++I) {
      r = regionofBasicBlock(*I);
      if (!ptrRA->RegionsRangeData[r].HasFullSideEffectInfo) return false;
    }
    return true;
  }
  \<close>
\<close>

definition regionofBasicBlock :: "analyses \<Rightarrow> BasicBlock \<Rightarrow> Region" where
  "regionofBasicBlock an bb = getRegionFor an bb"

fun isLoopAnalyzable_blocks :: "analyses \<Rightarrow> (Region \<Rightarrow> bool) \<Rightarrow> BasicBlock list \<Rightarrow> bool" where
  "isLoopAnalyzable_blocks an flags [] = True"
| "isLoopAnalyzable_blocks an flags (I # Is) =
     (if \<not> flags (regionofBasicBlock an I) then False
      else isLoopAnalyzable_blocks an flags Is)"

definition isLoopAnalyzable :: "analyses \<Rightarrow> (Region \<Rightarrow> bool) \<Rightarrow> Loop \<Rightarrow> bool" where
  "isLoopAnalyzable an flags L =
     (if \<not> flags (getRegionFor an (getHeader L)) then False
      else isLoopAnalyzable_blocks an flags (getBlocks L))"

text \<open>
  \<^verbatim>\<open>
  void WriteExpressions::analyzeCalls (Loop *L) {
    if (!isLoopAnalyzable(L)) return;
    for (auto BB = L->block_begin(), BE = L->block_end(); BB != BE; BB++)
      for (auto I = (*BB)->begin(), IE = (*BB)->end(); I != IE; I++)
        if (CallInst *CI = dyn_cast<CallInst>(I))
          if (CI->getName() != std::string())
            numFLC++;
  }
  \<close>
\<close>

fun analyzeCalls_insts :: "Instruction list \<Rightarrow> state \<Rightarrow> state" where
  "analyzeCalls_insts [] s = s"
| "analyzeCalls_insts (I # Is) s =
     analyzeCalls_insts Is
       (if isCallInst I \<and> getInstName I \<noteq> [] then s\<lparr>numFLC := numFLC s + 1\<rparr> else s)"

definition analyzeCalls :: "analyses \<Rightarrow> Loop \<Rightarrow> state \<Rightarrow> state" where
  "analyzeCalls an L s =
     (if \<not> isLoopAnalyzable an (RegionsRangeData s) L then s
      else analyzeCalls_insts (concat (map instructions (getBlocks L))) s)"

text \<open>
  \<^verbatim>\<open>
  bool WriteExpressions::isSafeMemoryCoalescing (Region *R) {
    if ((!R->getEnteringBlock() && !R->isTopLevelRegion())) return false;
    if (!ClEmitParallel) return true;
    std::map<Loop*, bool> loops;
    for (auto BB = R->block_begin(), BE = R->block_end(); BB != BE; BB++) {
      Loop *l = li->getLoopFor(*BB);
      if (!l) continue;
      if (loops.count(l) == 0)
        for (Loop *subLoop : l->getSubLoops()) loops[subLoop] = true;
      if (!isLoopParallel(l)) return false;
    }
    return true;
  }
  \<close>
\<close>

fun isSafeMemoryCoalescing_blocks ::
    "config \<Rightarrow> analyses \<Rightarrow> BasicBlock list \<Rightarrow> (Loop \<rightharpoonup> bool) \<Rightarrow> bool" where
  "isSafeMemoryCoalescing_blocks cfg an [] loops = True"
| "isSafeMemoryCoalescing_blocks cfg an (BB # BBs) loops =
     (case getLoopFor an BB of
        None \<Rightarrow> isSafeMemoryCoalescing_blocks cfg an BBs loops
      | Some l \<Rightarrow>
          (let loops' = (if loops l = None
                         then fold (\<lambda>subLoop m. m(subLoop \<mapsto> True)) (getSubLoops l) loops
                         else loops)
           in if \<not> isLoopParallel cfg l then False
              else isSafeMemoryCoalescing_blocks cfg an BBs loops'))"

definition isSafeMemoryCoalescing :: "config \<Rightarrow> analyses \<Rightarrow> Region \<Rightarrow> bool" where
  "isSafeMemoryCoalescing cfg an R =
     (if getEnteringBlock R = None \<and> \<not> isTopLevelRegion R then False
      else if \<not> ClEmitParallel cfg then True
      else isSafeMemoryCoalescing_blocks cfg an (blocks R) Map.empty)"

section \<open>The memory-coalescing policy\<close>

text \<open>
  \<^verbatim>\<open>
  void WriteExpressions::writeKernels (Loop *L, std::string NAME, bool restric) {
    if (!L) return;
    std::string flag = std::string();
    if (restric) flag = " if(!RST_" + NAME + ")";
    int line = L->getStartLoc()->getLine();
    std::string pragma = "#pragma acc kernels" + flag + "\n";
    if (!ClEmitParallel && (ClEmitOMP == ACC)) { addCommentToLine(pragma, line); return; }
    BasicBlock *BB = L->getLoopLatch();
    if (BB == nullptr) return;
    MD = BB->getTerminator()->getMetadata("isParallel");
    if (!MD) return;
    numWL++;
    if (ClEmitOMP == ACC) addCommentToLine(pragma, line);
    if (ClEmitParallel) { denotateLoopParallel(L, std::string()); marknumWL(L); }
  }
  \<close>
  The loop passed is never null where \<^verbatim>\<open>writeKernels\<close> is called.
\<close>

definition kernelsPragma :: "string \<Rightarrow> bool \<Rightarrow> string" where
  "kernelsPragma NAME restric =
     ''#pragma acc kernels'' @ (if restric then '' if(!RST_'' @ NAME @ '')'' else [])
       @ ''\<newline>''"

definition writeKernels :: "config \<Rightarrow> Loop \<Rightarrow> string \<Rightarrow> bool \<Rightarrow> state \<Rightarrow> state" where
  "writeKernels cfg L NAME restric s =
     (let line = getStartLoc L; pragma = kernelsPragma NAME restric
      in if \<not> ClEmitParallel cfg \<and> ClEmitOMP cfg = ACC
         then s\<lparr>Comments := addCommentToLine pragma line (Comments s)\<rparr>
         else (case getLoopLatch L of
                 None \<Rightarrow> s
               | Some BB \<Rightarrow>
                   (if getMetadata (getTerminator BB) ''isParallel'' = None then s
                    else (let s1 = s\<lparr>numWL := numWL s + 1\<rparr>;
                              s2 = (if ClEmitOMP cfg = ACC
                                    then s1\<lparr>Comments := addCommentToLine pragma line (Comments s1)\<rparr>
                                    else s1)
                          in if ClEmitParallel cfg
                             then marknumWL L (denotateLoopParallel cfg L [] s2)
                             else s2))))"

text \<open>
  The queue loop of \<^verbatim>\<open>annotateAccKernels\<close>, which marks a loop and all the
  loops nested in it:
  \<^verbatim>\<open>
    while (!q.empty()) {
      Loop *ll = q.front(); q.pop();
      loops[ll] = true;
      for (Loop *SubLoop : ll->getSubLoops()) q.push(SubLoop);
    }
  \<close>
\<close>

function markSubLoops :: "Loop list \<Rightarrow> (Loop \<rightharpoonup> bool) \<Rightarrow> (Loop \<rightharpoonup> bool)" where
  "markSubLoops [] loops = loops"
| "markSubLoops (ll # q) loops = markSubLoops (q @ getSubLoops ll) (loops(ll \<mapsto> True))"
  by pat_completeness auto
termination markSubLoops
proof (relation "measure (\<lambda>(q, loops). sum_list (map size q))", goal_cases)
  case 1
  show ?case by simp
next
  case (2 ll q loops)
  have "sum_list (map size (getSubLoops ll)) < size ll"
    by (cases ll) (simp add: size_list_conv_sum_list)
  then show ?case by simp
qed

text \<open>
  \<^verbatim>\<open>
  bool WriteExpressions::annotateAccKernels (Region *R, std::string NAME, bool restric) {
    if (!isSafeMemoryCoalescing(R)) return false;
    std::map<Loop*, bool> loops;
    for (auto BB = R->block_begin(), BE = R->block_end(); BB != BE; BB++) {
      Loop *l = li->getLoopFor(*BB);
      if (!l) continue;
      if (!R->contains(l->getHeader())) continue;
      if (loops.count(l) == 0) { loops[l] = true; writeKernels(l, NAME, restric); }
      std::queue<Loop*> q; q.push(l);
      while (!q.empty()) { ... }
    }
  }
  \<close>
  The value returned is not used by the caller; the model returns the state.
  \<^verbatim>\<open>R->contains(BB)\<close> is membership in the blocks of the region, and the
  \<^verbatim>\<open>std::map<Loop*, bool>\<close> is a map on loops.
\<close>

fun annotateAccKernels_blocks ::
    "config \<Rightarrow> analyses \<Rightarrow> Region \<Rightarrow> string \<Rightarrow> bool \<Rightarrow> BasicBlock list \<Rightarrow> (Loop \<rightharpoonup> bool) \<Rightarrow>
       state \<Rightarrow> state" where
  "annotateAccKernels_blocks cfg an R NAME restric [] loops s = s"
| "annotateAccKernels_blocks cfg an R NAME restric (BB # BBs) loops s =
     (case getLoopFor an BB of
        None \<Rightarrow> annotateAccKernels_blocks cfg an R NAME restric BBs loops s
      | Some l \<Rightarrow>
          (if getHeader l \<notin> set (blocks R)
           then annotateAccKernels_blocks cfg an R NAME restric BBs loops s
           else if loops l = None
           then annotateAccKernels_blocks cfg an R NAME restric BBs
                  (markSubLoops [l] (loops(l \<mapsto> True))) (writeKernels cfg l NAME restric s)
           else annotateAccKernels_blocks cfg an R NAME restric BBs
                  (markSubLoops [l] loops) s))"

definition annotateAccKernels ::
    "config \<Rightarrow> analyses \<Rightarrow> Region \<Rightarrow> string \<Rightarrow> bool \<Rightarrow> state \<Rightarrow> state" where
  "annotateAccKernels cfg an R NAME restric s =
     (if \<not> isSafeMemoryCoalescing cfg an R then s
      else annotateAccKernels_blocks cfg an R NAME restric (blocks R) Map.empty s)"

text \<open>The \<^verbatim>\<open>RecoverCode\<close> object created for sequence number \<open>n\<close>.\<close>

definition newDescriptor :: "int \<Rightarrow> target \<Rightarrow> line \<Rightarrow> descriptor" where
  "newDescriptor n t l =
     \<lparr>sequence = n, computationName = ''AI'' @ to_string n, analysed = t, atLine = l\<rparr>"

text \<open>
  \<^verbatim>\<open>
  void WriteExpressions::writeComputation (int line, int lineEnd, Region *R) {
    NewVars++;
    std::string computationName = "AI" + std::to_string(NewVars);
    RecoverCode RC;
    RC.setNAME(computationName); ... RC.setOMP(ClEmitOMP);
    std::string test;
    if (RC.analyzeRegion(R, line, ERROR_VALUE, ptrRA, rp, aa, se, li, dt, test)) {
      for (auto BB = R->block_begin(), BE = R->block_end(); BB != BE; BB++)
        for (auto I = (*BB)->begin(), IE = (*BB)->end(); I != IE; I++)
          if (CallInst *CI = dyn_cast<CallInst>(I))
            if (routines.count(CI->getCalledFunction()->getName()) == 0)
              findACCroutines(CI->getCalledFunction());
      copyComments(RC.Comments);
      clearExpression();
      annotateAccKernels(R, computationName, RC.restric);
      std::string pragma = "}\n";
      addCommentToLine(pragma, lineEnd);
    }
  }
  \<close>
\<close>

definition writeComputation ::
    "config \<Rightarrow> Module \<Rightarrow> analyses \<Rightarrow> line \<Rightarrow> line \<Rightarrow> Region \<Rightarrow> state \<Rightarrow> error + state" where
  "writeComputation cfg M an line lineEnd R s =
     (let s1 = s\<lparr>NewVars := NewVars s + 1\<rparr>;
          d = newDescriptor (NewVars s1) (OfRegion R) line;
          RC = analyzeRegion an (computationName d) (ClEmitOMP cfg) R line (RegionsRangeData s1);
          s2 = s1\<lparr>descriptors := descriptors s1 @ [d]\<rparr>
      in if RC_analyzed RC
         then (case findACCroutines_calls cfg M (concat (map instructions (blocks R)))
                      (routines s2) of
                 Inl e \<Rightarrow> Inl e
               | Inr r \<Rightarrow>
                   (let s3 = s2\<lparr>routines := r,
                                 Comments := copyComments (RC_Comments RC) (Comments s2),
                                 Expression := []\<rparr>;
                        s4 = annotateAccKernels cfg an R (computationName d) (RC_restric RC) s3
                    in Inr (s4\<lparr>Comments := addCommentToLine ''}\<newline>'' lineEnd (Comments s4)\<rparr>)))
         else Inr s2)"

text \<open>
  \<^verbatim>\<open>
  void WriteExpressions::regionIdentifyCoalescing (Region *R) {
    int line = st->getStartRegionLoops(R).first;
    int lineEnd = st->getEndRegionLoops(R).first + 1;
    if (!isSafeMemoryCoalescing(R) || !st->isSafetlyRegionLoops(R)) {
      for (auto SR = R->begin(), SRE = R->end(); SR != SRE; ++SR)
        regionIdentifyCoalescing(&(**SR));
      return;
    }
    bool regionInvalid = !ptrRA->RegionsRangeData[R].HasFullSideEffectInfo;
    regionInvalid = regionInvalid || !(rr->isSafetly(R));
    if (regionInvalid) {
      ptrRA->analyzeReducedRegion(R);
      Region *RR = rr->returnReducedRegion(R);
      if (RR) {
        bool safe = rr->isSafetly(RR);
        if (safe && ptrRA->RegionsRangeData[RR].HasFullSideEffectInfo) {
          writeComputation(line, lineEnd, RR);
          return;
        }
      }
    }
    if (regionInvalid) {
      for (auto SR = R->begin(), SRE = R->end(); SR != SRE; ++SR)
        regionIdentifyCoalescing(&(**SR));
      return;
    }
    writeComputation(line, lineEnd, R);
  }
  \<close>
  The second function is the loop over the child regions. Lines are 32-bit
  words, so \<^verbatim>\<open>+ 1\<close> wraps around.
\<close>

fun regionIdentifyCoalescing ::
    "config \<Rightarrow> Module \<Rightarrow> analyses \<Rightarrow> Region \<Rightarrow> state \<Rightarrow> error + state"
  and regionIdentifyCoalescing_subregions ::
    "config \<Rightarrow> Module \<Rightarrow> analyses \<Rightarrow> Region list \<Rightarrow> state \<Rightarrow> error + state" where
  "regionIdentifyCoalescing cfg M an (Region entering topLevel bs SRs) s =
     (let R = Region entering topLevel bs SRs;
          line = getStartRegionLoops an R;
          lineEnd = getEndRegionLoops an R + 1
      in if \<not> isSafeMemoryCoalescing cfg an R \<or> \<not> isSafetlyRegionLoops an R
         then regionIdentifyCoalescing_subregions cfg M an SRs s
         else (let regionInvalid = (\<not> RegionsRangeData s R \<or> \<not> isSafetly an R)
               in if regionInvalid
                  then (let s1 = s\<lparr>RegionsRangeData :=
                                      analyzeReducedRegion an R (RegionsRangeData s)\<rparr>
                        in case returnReducedRegion an R of
                             None \<Rightarrow> regionIdentifyCoalescing_subregions cfg M an SRs s1
                           | Some RR \<Rightarrow>
                               (if isSafetly an RR \<and> RegionsRangeData s1 RR
                                then writeComputation cfg M an line lineEnd RR s1
                                else regionIdentifyCoalescing_subregions cfg M an SRs s1))
                  else writeComputation cfg M an line lineEnd R s))"
| "regionIdentifyCoalescing_subregions cfg M an [] s = Inr s"
| "regionIdentifyCoalescing_subregions cfg M an (SR # SRs) s =
     (case regionIdentifyCoalescing cfg M an SR s of
        Inl e \<Rightarrow> Inl e
      | Inr s' \<Rightarrow> regionIdentifyCoalescing_subregions cfg M an SRs s')"

section \<open>The loop-parallel policy\<close>

text \<open>
  \<^verbatim>\<open>
  void WriteExpressions::regionIdentify (Region *R) {
    Loop *l = li->getLoopFor(*(R->block_begin()));
    if (!l || (!isLoopParallel(l) && ClEmitParallel)) {
      for (auto SR = R->begin(), SRE = R->end(); SR != SRE; ++SR) regionIdentify(&(**SR));
      return;
    }
    if (!isLoopAnalyzable(l) || !st->isSafetlyRegionLoops(R)) {
      for (auto SR = R->begin(), SRE = R->end(); SR != SRE; ++SR) regionIdentify(&(**SR));
      return;
    }
    marknumAL(l);
    int line = l->getStartLoc().getLine();
    if (line == ERROR_VALUE) return;
    NewVars++;
    std::string computationName = "AI" + std::to_string(NewVars);
    RecoverCode RC; ...
    std::string test;
    if (RC.analyzeLoop(l, line, ERROR_VALUE, ptrRA, rp, aa, se, li, dt, test)) {
      for (auto BB = l->block_begin(), BE = l->block_end(); BB != BE; BB++)
        for (auto I = (*BB)->begin(), IE = (*BB)->end(); I != IE; I++)
          if (CallInst *CI = dyn_cast<CallInst>(I))
            if (routines.count(CI->getCalledFunction()->getName()) == 0)
              findACCroutines(CI->getCalledFunction());
      copyComments(RC.Comments);
      clearExpression();
      if (ClEmitParallel) { denotateLoopParallel(l, test); return; }
      marknumWL(l);
    }
  }
  \<close>
  \<open>regionIdentify_loop\<close> is the part from \<^verbatim>\<open>marknumAL(l)\<close> on, which does not
  recurse; \<open>regionIdentify_subregions\<close> is the loop over the child regions.
\<close>

definition regionIdentify_loop ::
    "config \<Rightarrow> Module \<Rightarrow> analyses \<Rightarrow> Loop \<Rightarrow> state \<Rightarrow> error + state" where
  "regionIdentify_loop cfg M an l s =
     (let s0 = marknumAL l s; line = getStartLoc l
      in if line = ERROR_VALUE then Inr s0
         else (let s1 = s0\<lparr>NewVars := NewVars s0 + 1\<rparr>;
                   d = newDescriptor (NewVars s1) (OfLoop l) line;
                   RC = analyzeLoop an (computationName d) (ClEmitOMP cfg) l line
                          (RegionsRangeData s1);
                   s2 = s1\<lparr>descriptors := descriptors s1 @ [d]\<rparr>
               in if RC_analyzed RC
                  then (case findACCroutines_calls cfg M
                               (concat (map instructions (getBlocks l))) (routines s2) of
                          Inl e \<Rightarrow> Inl e
                        | Inr r \<Rightarrow>
                            (let s3 = s2\<lparr>routines := r,
                                          Comments := copyComments (RC_Comments RC) (Comments s2),
                                          Expression := []\<rparr>
                             in if ClEmitParallel cfg
                                then Inr (denotateLoopParallel cfg l (RC_test RC) s3)
                                else Inr (marknumWL l s3)))
                  else Inr s2))"

fun regionIdentify :: "config \<Rightarrow> Module \<Rightarrow> analyses \<Rightarrow> Region \<Rightarrow> state \<Rightarrow> error + state"
  and regionIdentify_subregions ::
    "config \<Rightarrow> Module \<Rightarrow> analyses \<Rightarrow> Region list \<Rightarrow> state \<Rightarrow> error + state" where
  "regionIdentify cfg M an (Region entering topLevel bs SRs) s =
     (case bs of
        [] \<Rightarrow> Inl EmptyRegion
      | B # _ \<Rightarrow>
          (case getLoopFor an B of
             None \<Rightarrow> regionIdentify_subregions cfg M an SRs s
           | Some l \<Rightarrow>
               (if \<not> isLoopParallel cfg l \<and> ClEmitParallel cfg
                then regionIdentify_subregions cfg M an SRs s
                else if \<not> isLoopAnalyzable an (RegionsRangeData s) l \<or>
                        \<not> isSafetlyRegionLoops an (Region entering topLevel bs SRs)
                then regionIdentify_subregions cfg M an SRs s
                else regionIdentify_loop cfg M an l s)))"
| "regionIdentify_subregions cfg M an [] s = Inr s"
| "regionIdentify_subregions cfg M an (SR # SRs) s =
     (case regionIdentify cfg M an SR s of
        Inl e \<Rightarrow> Inl e
      | Inr s' \<Rightarrow> regionIdentify_subregions cfg M an SRs s')"

section \<open>The pass on a function and on a run\<close>

text \<open>
  \<^verbatim>\<open>
  void WriteExpressions::functionIdentify (Function *F) {
    std::map<Loop*, bool> loops;
    for (auto B = F->begin(), BE = F->end(); B != BE; B++) {
      Loop *l = li->getLoopFor(B);
      if (l && loops.count(l) == 0) { loops[l] = true; numL++; }
    }
    Region *region = rp->getRegionInfo().getRegionFor(F->begin());
    Region *topRegion = region;
    while (region != NULL) { topRegion = region; region = region->getParent(); }
    if (ClCoalescing) regionIdentifyCoalescing(topRegion);
    else regionIdentify(topRegion);
  }
  \<close>
\<close>

fun functionIdentify_blocks ::
    "analyses \<Rightarrow> BasicBlock list \<Rightarrow> (Loop \<rightharpoonup> bool) \<Rightarrow> state \<Rightarrow> state" where
  "functionIdentify_blocks an [] loops s = s"
| "functionIdentify_blocks an (B # Bs) loops s =
     (case getLoopFor an B of
        None \<Rightarrow> functionIdentify_blocks an Bs loops s
      | Some l \<Rightarrow>
          (if loops l = None
           then functionIdentify_blocks an Bs (loops(l \<mapsto> True)) (s\<lparr>numL := numL s + 1\<rparr>)
           else functionIdentify_blocks an Bs loops s))"

definition functionIdentify ::
    "config \<Rightarrow> Module \<Rightarrow> analyses \<Rightarrow> Function \<Rightarrow> state \<Rightarrow> error + state" where
  "functionIdentify cfg M an F s =
     (let s1 = functionIdentify_blocks an (getBasicBlocks F) Map.empty s;
          topRegion = getTopLevelRegion an
      in if ClCoalescing cfg then regionIdentifyCoalescing cfg M an topRegion s1
         else regionIdentify cfg M an topRegion s1)"

text \<open>
  \<^verbatim>\<open>
  bool WriteExpressions::runOnFunction(Function &F) {
    this->li = ...; ... this->ptrRA = &getAnalysis<PtrRangeAnalysis>(); ...
    NewVars = 0;
    Comments.erase(Comments.begin(), Comments.end());
    isknowedLoop.erase(isknowedLoop.begin(), isknowedLoop.end());
    functionIdentify(&F);
    return true;
  }
  \<close>
  The analyses are those of the function at hand; the side-effect flags start
  as the pointer-range analysis of this function gives them.
\<close>

definition runOnFunction ::
    "config \<Rightarrow> Module \<Rightarrow> analyses \<Rightarrow> Function \<Rightarrow> state \<Rightarrow> error + state" where
  "runOnFunction cfg M an F s =
     functionIdentify cfg M an F
       (s\<lparr>RegionsRangeData := HasFullSideEffectInfo an, NewVars := 0,
          Comments := Map.empty, isknowedLoop := Map.empty\<rparr>)"

text \<open>
  A run of the pass: the pass manager calls \<^verbatim>\<open>runOnFunction\<close> for the functions
  of the module one after the other, each with its own analyses, on the same
  pass object.
\<close>

fun run :: "config \<Rightarrow> Module \<Rightarrow> (analyses \<times> Function) list \<Rightarrow> state \<Rightarrow> error + state" where
  "run cfg M [] s = Inr s"
| "run cfg M ((an, F) # rest) s =
     (case runOnFunction cfg M an F s of
        Inl e \<Rightarrow> Inl e
      | Inr s' \<Rightarrow> run cfg M rest s')"

text \<open>A line has a fragment when its text contains the fragment.\<close>

definition hasFragment :: "comments \<Rightarrow> line \<Rightarrow> string \<Rightarrow> bool" where
  "hasFragment m Line c = (\<exists>t. m Line = Some t \<and> sublist c t)"

text \<open>The state at the start of the process: nothing recorded, all counters 0.\<close>

definition initialState :: state where
  "initialState =
     \<lparr>Comments = Map.empty, routines = Map.empty, NewVars = 0, Expression = [],
      isknowedLoop = Map.empty, numL = 0, numAL = 0, numWL = 0, numFLC = 0,
      RegionsRangeData = (\<lambda>R. False), descriptors = []\<rparr>"

text \<open>
  The sequence numbers \<open>k + 1\<close>, \<open>k + 2\<close>, ... in this order: what a counter
  that stands at \<open>k\<close> and is incremented before each use hands out.
\<close>

fun consecutive :: "int \<Rightarrow> int list \<Rightarrow> bool" where
  "consecutive k [] = True"
| "consecutive k (x # xs) = (x = k + 1 \<and> consecutive (k + 1) xs)"

text \<open>
  Two relations between a state and a later one. \<open>unchanged\<close>: the counter of
  safe calls, the sequence counter and the descriptors are the same.
  \<open>advances\<close>: the counter of safe calls is the same, descriptors were only
  added at the end, and they carry the consecutive sequence numbers after the
  old value of the sequence counter.
\<close>

definition unchanged :: "state \<Rightarrow> state \<Rightarrow> bool" where
  "unchanged s s' =
     (numFLC s' = numFLC s \<and> descriptors s' = descriptors s \<and> NewVars s' = NewVars s)"

definition advances :: "state \<Rightarrow> state \<Rightarrow> bool" where
  "advances s s' =
     (numFLC s' = numFLC s \<and>
      (\<exists>ds. descriptors s' = descriptors s @ ds \<and>
            consecutive (NewVars s) (map sequence ds) \<and>
            NewVars s' = NewVars s + int (length ds)))"

text \<open>
  A list of instructions has direct calls only when every call instruction
  names a function of the module; a module is closed when this holds for the
  body of each of its functions.
\<close>

definition directCalls :: "Module \<Rightarrow> Instruction list \<Rightarrow> bool" where
  "directCalls M Is =
     list_all (\<lambda>I. isCallInst I \<longrightarrow>
        (case getCalledFunction I of None \<Rightarrow> False | Some n \<Rightarrow> getFunction M n \<noteq> None)) Is"

definition closedModule :: "Module \<Rightarrow> bool" where
  "closedModule M =
     list_all (\<lambda>F. directCalls M (concat (map instructions (getBasicBlocks F)))) M"

text \<open>Reading the outcome of a traversal.\<close>

definition commentsAt :: "error + state \<Rightarrow> line \<Rightarrow> string option" where
  "commentsAt res Line = (case res of Inl e \<Rightarrow> None | Inr s \<Rightarrow> Comments s Line)"

definition descriptorsOf :: "error + state \<Rightarrow> descriptor list" where
  "descriptorsOf res = (case res of Inl e \<Rightarrow> [] | Inr s \<Rightarrow> descriptors s)"

definition numFLCOf :: "error + state \<Rightarrow> 32 word" where
  "numFLCOf res = (case res of Inl e \<Rightarrow> 0 | Inr s \<Rightarrow> numFLC s)"

subsection \<open>Example programs\<close>

definition brParallel :: Instruction where
  "brParallel = Instruction ''br'' False None [(''isParallel'', MDNode)]"

definition brPlain :: Instruction where
  "brPlain = Instruction ''br'' False None []"

definition cfgParallelACC :: config where
  "cfgParallelACC =
     \<lparr>ClEmitParallel = True, ClEmitOMP = ACC, ClDivergent = False, ClCoalescing = False\<rparr>"

text \<open>A loop without the parallel marker, starting at line 12.\<close>

definition innerPlain :: Loop where
  "innerPlain =
     Loop (BasicBlock ''inner.header'' [] brPlain) (Some (BasicBlock ''inner.latch'' [] brPlain))
       12 [] [BasicBlock ''inner.header'' [] brPlain, BasicBlock ''inner.latch'' [] brPlain]"

text \<open>A loop with the parallel marker, starting at line 12.\<close>

definition innerParallel :: Loop where
  "innerParallel =
     Loop (BasicBlock ''inner.header'' [] brPlain)
       (Some (BasicBlock ''inner.latch'' [] brParallel))
       12 [] [BasicBlock ''inner.header'' [] brPlain, BasicBlock ''inner.latch'' [] brParallel]"

text \<open>A marked loop at line 10 around a given sub-loop.\<close>

definition outerParallel :: "Loop \<Rightarrow> Loop" where
  "outerParallel inner =
     Loop (BasicBlock ''outer.header'' [] brPlain)
       (Some (BasicBlock ''outer.latch'' [] brParallel))
       10 [inner] [BasicBlock ''outer.header'' [] brPlain, BasicBlock ''outer.latch'' [] brParallel]"

text \<open>The accelerator target without parallel emission, for either traversal.\<close>

definition cfgCoalescingACC :: config where
  "cfgCoalescingACC =
     \<lparr>ClEmitParallel = False, ClEmitOMP = ACC, ClDivergent = False, ClCoalescing = True\<rparr>"

definition cfgLoopACC :: config where
  "cfgLoopACC =
     \<lparr>ClEmitParallel = False, ClEmitOMP = ACC, ClDivergent = False, ClCoalescing = False\<rparr>"

text \<open>Two functions that call each other: the call graph F \<rightarrow> G \<rightarrow> F.\<close>

definition callTo :: "string \<Rightarrow> Instruction" where
  "callTo n = Instruction ''call'' True (Some n) []"

definition cycleF :: Function where
  "cycleF = Function ''F'' False False False [BasicBlock ''entry'' [callTo ''G''] brPlain]"

definition cycleG :: Function where
  "cycleG = Function ''G'' False False False [BasicBlock ''entry'' [callTo ''F''] brPlain]"

text \<open>
  A function whose top-level region (lines 10 to 20) holds one loop (line 13) and has a
  child region (lines 12 to 15). The side-effect information is complete for
  the child region only, and region reduction turns the top-level region into
  the child region. Expression recovery succeeds and produces a data directive
  at the line it is given.
\<close>

definition exBlock :: BasicBlock where
  "exBlock = BasicBlock ''for.body'' [Instruction ''call'' True (Some ''F'') []] brPlain"

definition exLoop :: Loop where
  "exLoop = Loop exBlock (Some exBlock) 13 [] [exBlock]"

definition exInnerRegion :: Region where
  "exInnerRegion = Region (Some exBlock) False [exBlock] []"

definition exOuterRegion :: Region where
  "exOuterRegion = Region None True [exBlock] [exInnerRegion]"

definition exRecover :: "line \<Rightarrow> RecoverCode" where
  "exRecover l =
     \<lparr>RC_analyzed = True, RC_test = [], RC_Comments = [(l, ''#pragma acc data\<newline>'')],
      RC_restric = False\<rparr>"

definition exAnalyses :: analyses where
  "exAnalyses =
     \<lparr>getLoopFor = (\<lambda>BB. Some exLoop),
      getRegionFor = (\<lambda>BB. exInnerRegion),
      getTopLevelRegion = exOuterRegion,
      isSafetlyRegionLoops = (\<lambda>R. True),
      getStartRegionLoops = (\<lambda>R. if R = exOuterRegion then 10 else 12),
      getEndRegionLoops = (\<lambda>R. if R = exOuterRegion then 20 else 15),
      isSafetly = (\<lambda>R. True),
      returnReducedRegion = (\<lambda>R. if R = exOuterRegion then Some exInnerRegion else None),
      HasFullSideEffectInfo = (\<lambda>R. R \<noteq> exOuterRegion),
      analyzeReducedRegion = (\<lambda>R flags. flags),
      analyzeLoop = (\<lambda>NAME omp L l flags. exRecover l),
      analyzeRegion = (\<lambda>NAME omp R l flags. exRecover l)\<rparr>"

definition exFunction :: "string \<Rightarrow> Function" where
  "exFunction n = Function n False False False [exBlock]"

text \<open>The state in which the traversal of the example function starts.\<close>

definition exState :: state where
  "exState = initialState\<lparr>RegionsRangeData := HasFullSideEffectInfo exAnalyses\<rparr>"

subsection \<open>Properties of the Comment Map\<close>

lemma find_from_sublist: "(find_from pos t c = None) = (\<not> sublist c t)"
  by (induction t arbitrary: pos) (auto simp: sublist_Cons_right)

lemma find_str_sublist: "(find_str t c = None) = (\<not> sublist c t)"
  by (simp add: find_str_def find_from_sublist)

lemma addCommentToLine_other:
  "l \<noteq> Line \<Longrightarrow> addCommentToLine c Line m l = m l"
  by (simp add: addCommentToLine_def split: option.splits)

lemma addCommentToLine_Some:
  "m l = Some t \<Longrightarrow> \<exists>x. addCommentToLine c Line m l = Some (t @ x)"
  by (cases "l = Line") (auto simp: addCommentToLine_def split: option.splits)

lemma copyComments_Some:
  "m l = Some t \<Longrightarrow> \<exists>x. copyComments cs m l = Some (t @ x)"
proof (induction cs arbitrary: m t)
  case Nil
  then show ?case by simp
next
  case (Cons a cs)
  obtain Line c where a: "a = (Line, c)" by (cases a)
  obtain x where x: "addCommentToLine c Line m l = Some (t @ x)"
    using addCommentToLine_Some [of m l t c Line] Cons.prems by blast
  obtain y where "copyComments cs (addCommentToLine c Line m) l = Some ((t @ x) @ y)"
    using Cons.IH [of "addCommentToLine c Line m" "t @ x"] x by blast
  with a show ?case by simp
qed

lemma addCommentToLine_kept:
  "\<not> dropped c Line m \<Longrightarrow>
     addCommentToLine c Line m Line = Some (lineText m Line @ c)"
  by (auto simp: addCommentToLine_def lineText_def dropped_def split: option.splits)

text \<open>
  C4. Inserting a fragment for a line is idempotent under the substring rule.
  For a line that has an entry: when the fragment occurs as a substring of the
  entry's text the map is left as it is, otherwise the fragment is appended to
  the text. For a line that has no entry yet, the fragment becomes its text.
  Inserting the same fragment a second time for the same line changes nothing.
\<close>

theorem addCommentToLine_idempotent:
  "(\<forall>t. m Line = Some t \<and> sublist c t \<longrightarrow> addCommentToLine c Line m = m) \<and>
   (\<forall>t. m Line = Some t \<and> \<not> sublist c t \<longrightarrow>
        addCommentToLine c Line m = m(Line \<mapsto> t @ c)) \<and>
   (m Line = None \<longrightarrow> addCommentToLine c Line m = m(Line \<mapsto> c)) \<and>
   addCommentToLine c Line (addCommentToLine c Line m) = addCommentToLine c Line m"
  by (auto simp: addCommentToLine_def find_str_sublist split: option.splits)

theorem addCommentToLine_idempotent_witness:
  "addCommentToLine ''#pragma acc kernels'' 7 [7 \<mapsto> ''#pragma acc kernels''] =
     [7 \<mapsto> ''#pragma acc kernels''] \<and>
   addCommentToLine ''}'' 7 [7 \<mapsto> ''#pragma acc kernels''] =
     [7 \<mapsto> ''#pragma acc kernels}''] \<and>
   addCommentToLine ''}'' 7 Map.empty = [7 \<mapsto> ''}'']"
proof (intro conjI)
  have "sublist ''#pragma acc kernels'' ''#pragma acc kernels''"
    by simp
  then show "addCommentToLine ''#pragma acc kernels'' 7 [7 \<mapsto> ''#pragma acc kernels''] =
     [7 \<mapsto> ''#pragma acc kernels'']"
    using addCommentToLine_idempotent
      [of "[7 \<mapsto> ''#pragma acc kernels'']" 7 "''#pragma acc kernels''"]
    by simp
  have "\<not> sublist ''}'' ''#pragma acc kernels''"
    by (simp add: sublist_Cons_right)
  then show "addCommentToLine ''}'' 7 [7 \<mapsto> ''#pragma acc kernels''] =
     [7 \<mapsto> ''#pragma acc kernels}'']"
    using addCommentToLine_idempotent [of "[7 \<mapsto> ''#pragma acc kernels'']" 7 "''}''"]
    by simp
  show "addCommentToLine ''}'' 7 Map.empty = [7 \<mapsto> ''}'']"
    using addCommentToLine_idempotent [of Map.empty 7 "''}''"] by simp
qed

text \<open>
  C9. First-insertion order is kept in a line's text. Fragment \<open>A\<close> is
  inserted for a line, then any insertions \<open>between\<close> follow (for any lines),
  then fragment \<open>B\<close> is inserted for the same line, then any insertions
  \<open>after\<close> follow. When neither insertion is dropped by the substring rule, the
  final text of the line has an occurrence of \<open>A\<close> that lies wholly before an
  occurrence of \<open>B\<close>.
\<close>

theorem addCommentToLine_order:
  assumes "\<not> dropped A Line m"
    and "m2 = copyComments between (addCommentToLine A Line m)"
    and "\<not> dropped B Line m2"
  shows "\<exists>p q r. copyComments after (addCommentToLine B Line m2) Line =
                   Some (p @ A @ q @ B @ r)"
proof -
  let ?m1 = "addCommentToLine A Line m"
  let ?m3 = "addCommentToLine B Line m2"
  have t1: "?m1 Line = Some (lineText m Line @ A)"
    using assms(1) by (rule addCommentToLine_kept)
  obtain q where t2: "m2 Line = Some ((lineText m Line @ A) @ q)"
    using copyComments_Some [of ?m1 Line "lineText m Line @ A" between] t1 assms(2)
    by blast
  have t3: "?m3 Line = Some (lineText m2 Line @ B)"
    using assms(3) by (rule addCommentToLine_kept)
  obtain r where t4: "copyComments after ?m3 Line = Some ((lineText m2 Line @ B) @ r)"
    using copyComments_Some [of ?m3 Line "lineText m2 Line @ B" after] t3 by blast
  from t2 have "lineText m2 Line = lineText m Line @ A @ q"
    by (simp add: lineText_def)
  with t4 show ?thesis by auto
qed

theorem addCommentToLine_order_witness:
  "\<not> dropped ''#pragma acc data'' 7 Map.empty \<and>
   \<not> dropped ''}'' 7
      (copyComments [(7, ''#pragma acc kernels''), (9, ''}'')]
        (addCommentToLine ''#pragma acc data'' 7 Map.empty)) \<and>
   (\<exists>p q r.
      copyComments [(7, ''#pragma omp'')]
        (addCommentToLine ''}'' 7
          (copyComments [(7, ''#pragma acc kernels''), (9, ''}'')]
            (addCommentToLine ''#pragma acc data'' 7 Map.empty))) 7 =
      Some (p @ ''#pragma acc data'' @ q @ ''}'' @ r))"
proof -
  have a: "\<not> dropped ''#pragma acc data'' 7 Map.empty"
    by (simp add: dropped_def)
  have b: "\<not> dropped ''}'' 7
      (copyComments [(7, ''#pragma acc kernels''), (9, ''}'')]
        (addCommentToLine ''#pragma acc data'' 7 Map.empty))"
    by (simp add: dropped_def addCommentToLine_def find_str_def)
  show ?thesis
    using a b addCommentToLine_order [OF a refl b, of "[(7, ''#pragma omp'')]"]
    by blast
qed

subsection \<open>Properties of the safety predicates and the parallel-marker policy\<close>

text \<open>
  C7. \<^verbatim>\<open>isLoopParallel\<close> holds exactly when the loop has a latch block whose
  terminator carries the \<^verbatim>\<open>isParallel\<close> marker, unless discard-divergent is set
  and the terminator also carries the \<^verbatim>\<open>isDivergent\<close> marker. A loop without a
  latch block is never parallel.
\<close>

theorem isLoopParallel_iff:
  "isLoopParallel cfg L =
     (\<exists>BB. getLoopLatch L = Some BB \<and>
        getMetadata (getTerminator BB) ''isParallel'' \<noteq> None \<and>
        \<not> (ClDivergent cfg \<and> getMetadata (getTerminator BB) ''isDivergent'' \<noteq> None)) \<and>
   (getLoopLatch L = None \<longrightarrow> \<not> isLoopParallel cfg L)"
  by (auto simp: isLoopParallel_def Let_def split: option.splits)

theorem isLoopParallel_iff_witness:
  "getLoopLatch (Loop (BasicBlock ''h'' [] brParallel) None 3 [] []) = None \<and>
   \<not> isLoopParallel cfgParallelACC (Loop (BasicBlock ''h'' [] brParallel) None 3 [] []) \<and>
   isLoopParallel cfgParallelACC innerParallel"
  using isLoopParallel_iff [of cfgParallelACC "Loop (BasicBlock ''h'' [] brParallel) None 3 [] []"]
    isLoopParallel_iff [of cfgParallelACC innerParallel]
  by (simp add: innerParallel_def brParallel_def getMetadata_def cfgParallelACC_def)

lemma denotateLoopParallel_unfold:
  "denotateLoopParallel cfg L c s =
     (if isLoopParallel cfg L
      then denotateLoopParallel_SubLoops cfg (getSubLoops L) c
             (s\<lparr>numWL := numWL s + 1,
                Comments := addCommentToLine (loopPragma cfg c) (getStartLoc L) (Comments s)\<rparr>)
      else s)"
  by (cases L) (auto simp: isLoopParallel_def Let_def split: option.splits)

lemma hasFragment_addCommentToLine:
  "hasFragment m l p \<Longrightarrow> hasFragment (addCommentToLine c Line m) l p"
  unfolding hasFragment_def
  using addCommentToLine_Some [of m l _ c Line]
  by (metis sublist_append_rightI sublist_order.order_trans)

lemma hasFragment_added: "hasFragment (addCommentToLine c Line m) Line c"
  by (auto simp: hasFragment_def addCommentToLine_def find_str_sublist split: option.splits)

lemma denotateLoopParallel_keeps:
  "hasFragment (Comments s) l p \<Longrightarrow>
     hasFragment (Comments (denotateLoopParallel cfg L c s)) l p"
  "hasFragment (Comments s) l p \<Longrightarrow>
     hasFragment (Comments (denotateLoopParallel_SubLoops cfg Ls c s)) l p"
proof (induction cfg L c s and cfg Ls c s
    rule: denotateLoopParallel_denotateLoopParallel_SubLoops.induct)
  case (1 cfg header latch startLine SubLoops bs condition s)
  then show ?case
    by (auto simp: Let_def hasFragment_addCommentToLine split: option.splits)
next
  case (2 cfg condition s)
  then show ?case by simp
next
  case (3 cfg SubLoop SubLoops condition s)
  then show ?case by simp
qed

lemma denotateLoopParallel_all:
  "\<forall>l\<in>set (loopNest L). isLoopParallel cfg l \<Longrightarrow>
     \<forall>l\<in>set (loopNest L).
       hasFragment (Comments (denotateLoopParallel cfg L c s)) (getStartLoc l) (loopPragma cfg c)"
  "\<forall>L\<in>set Ls. \<forall>l\<in>set (loopNest L). isLoopParallel cfg l \<Longrightarrow>
     \<forall>L\<in>set Ls. \<forall>l\<in>set (loopNest L).
       hasFragment (Comments (denotateLoopParallel_SubLoops cfg Ls c s)) (getStartLoc l)
         (loopPragma cfg c)"
proof (induction cfg L c s and cfg Ls c s
    rule: denotateLoopParallel_denotateLoopParallel_SubLoops.induct)
  case (1 cfg header latch startLine SubLoops bs condition s)
  let ?L = "Loop header latch startLine SubLoops bs"
  let ?s1 = "s\<lparr>numWL := numWL s + 1,
                Comments := addCommentToLine (loopPragma cfg condition) startLine (Comments s)\<rparr>"
  let ?s2 = "denotateLoopParallel_SubLoops cfg SubLoops condition ?s1"
  have par: "isLoopParallel cfg ?L" using 1(2) by simp
  then obtain BB where BB: "latch = Some BB"
      "\<not> (ClDivergent cfg \<and> getMetadata (getTerminator BB) ''isDivergent'' \<noteq> None)"
      "getMetadata (getTerminator BB) ''isParallel'' \<noteq> None"
    by (auto simp: isLoopParallel_def Let_def split: option.splits if_splits)
  have eq: "denotateLoopParallel cfg ?L condition s = ?s2"
    using par denotateLoopParallel_unfold [of cfg ?L condition s] by simp
  have subs: "\<forall>L\<in>set SubLoops. \<forall>l\<in>set (loopNest L). isLoopParallel cfg l"
    using 1(2) by auto
  have IH: "\<forall>L\<in>set SubLoops. \<forall>l\<in>set (loopNest L).
      hasFragment (Comments ?s2) (getStartLoc l) (loopPragma cfg condition)"
    using 1(1) [OF BB(1) refl refl _ _ subs] BB by auto
  have "hasFragment (Comments ?s1) startLine (loopPragma cfg condition)"
    by (simp add: hasFragment_added)
  then have "hasFragment (Comments ?s2) startLine (loopPragma cfg condition)"
    by (rule denotateLoopParallel_keeps)
  with IH eq show ?case by auto
next
  case (2 cfg condition s)
  then show ?case by simp
next
  case (3 cfg SubLoop SubLoops condition s)
  then show ?case by (auto intro: denotateLoopParallel_keeps)
qed

text \<open>
  C3, as stated, fails: the recursion into a sub-loop is a call of
  \<^verbatim>\<open>denotateLoopParallel\<close> itself, which checks the sub-loop's own latch and
  markers again. Here the loop at line 10 is annotated, and its sub-loop at
  line 12, which has no \<^verbatim>\<open>isParallel\<close> marker, receives no directive.
\<close>

theorem denotateLoopParallel_subloop_counterexample:
  "Comments (denotateLoopParallel cfgParallelACC (outerParallel innerPlain) [] initialState) 10 =
     Some ''#pragma acc loop independent \<newline>'' \<and>
   getSubLoops (outerParallel innerPlain) = [innerPlain] \<and>
   getStartLoc innerPlain = 12 \<and>
   Comments (denotateLoopParallel cfgParallelACC (outerParallel innerPlain) [] initialState) 12 =
     None"
  by (simp add: outerParallel_def innerPlain_def brParallel_def brPlain_def getMetadata_def
      cfgParallelACC_def initialState_def addCommentToLine_def loopPragma_def ACC_def
      OMP_GPU_def OMP_CPU_def)

text \<open>
  C3, amended. Once a loop is annotated, the policy recurses into every
  sub-loop with the same guard condition, and every sub-loop is validated again
  by the same latch and marker check (the one of \<^verbatim>\<open>isLoopParallel\<close>): a loop
  that fails the check is left without a directive and its sub-loops are not
  visited; a loop that passes is counted, receives the directive at its start
  line, and its sub-loops are visited in order. In a nest all of whose loops
  pass the check, every loop of the nest has the directive at its start line.
\<close>

theorem denotateLoopParallel_revalidates:
  "(\<not> isLoopParallel cfg L \<longrightarrow> denotateLoopParallel cfg L c s = s) \<and>
   (isLoopParallel cfg L \<longrightarrow>
      denotateLoopParallel cfg L c s =
        denotateLoopParallel_SubLoops cfg (getSubLoops L) c
          (s\<lparr>numWL := numWL s + 1,
             Comments := addCommentToLine (loopPragma cfg c) (getStartLoc L) (Comments s)\<rparr>)) \<and>
   ((\<forall>l\<in>set (loopNest L). isLoopParallel cfg l) \<longrightarrow>
      (\<forall>l\<in>set (loopNest L).
         hasFragment (Comments (denotateLoopParallel cfg L c s)) (getStartLoc l)
           (loopPragma cfg c)))"
  using denotateLoopParallel_unfold [of cfg L c s] denotateLoopParallel_all(1) [of L cfg c s]
  by simp

theorem denotateLoopParallel_revalidates_witness:
  "\<not> isLoopParallel cfgParallelACC innerPlain \<and>
   denotateLoopParallel cfgParallelACC innerPlain [] initialState = initialState \<and>
   isLoopParallel cfgParallelACC (outerParallel innerParallel) \<and>
   isLoopParallel cfgParallelACC innerParallel \<and>
   hasFragment
     (Comments (denotateLoopParallel cfgParallelACC (outerParallel innerParallel) [] initialState))
     10 (loopPragma cfgParallelACC []) \<and>
   hasFragment
     (Comments (denotateLoopParallel cfgParallelACC (outerParallel innerParallel) [] initialState))
     12 (loopPragma cfgParallelACC [])"
proof -
  have a: "\<not> isLoopParallel cfgParallelACC innerPlain"
    by (simp add: isLoopParallel_def innerPlain_def brPlain_def getMetadata_def)
  have b: "isLoopParallel cfgParallelACC innerParallel"
    by (simp add: isLoopParallel_def innerParallel_def brParallel_def getMetadata_def
        cfgParallelACC_def)
  have c: "isLoopParallel cfgParallelACC (outerParallel innerParallel)"
    by (simp add: isLoopParallel_def outerParallel_def brParallel_def getMetadata_def
        cfgParallelACC_def)
  have nest: "loopNest (outerParallel innerParallel) = [outerParallel innerParallel, innerParallel]"
    by (simp add: outerParallel_def innerParallel_def)
  have lines: "getStartLoc (outerParallel innerParallel) = 10" "getStartLoc innerParallel = 12"
    by (simp_all add: outerParallel_def innerParallel_def)
  have first: "denotateLoopParallel cfgParallelACC innerPlain [] initialState = initialState"
    using a denotateLoopParallel_revalidates [of cfgParallelACC innerPlain "[]" initialState]
    by blast
  have third: "hasFragment
     (Comments (denotateLoopParallel cfgParallelACC (outerParallel innerParallel) [] initialState))
     10 (loopPragma cfgParallelACC []) \<and>
   hasFragment
     (Comments (denotateLoopParallel cfgParallelACC (outerParallel innerParallel) [] initialState))
     12 (loopPragma cfgParallelACC [])"
    using b c lines
      denotateLoopParallel_revalidates
        [of cfgParallelACC "outerParallel innerParallel" "[]" initialState,
         THEN conjunct2, THEN conjunct2]
    by (simp add: nest)
  show ?thesis
    using a b c first third by blast
qed

subsection \<open>The safety predicate of the coalescing policy\<close>




subsection \<open>The Routine Closure Builder returns\<close>

lemma findACCroutines_returns:
  "closedModule M \<Longrightarrow> directCalls M (concat (map instructions (getBasicBlocks F))) \<Longrightarrow>
     \<exists>r'. findACCroutines cfg M F r = Inr r' \<and> dom r \<subseteq> dom r' \<and>
          dom r' \<subseteq> dom r \<union> {getName F} \<union> getName ` set M"
  "closedModule M \<Longrightarrow> directCalls M Is \<Longrightarrow>
     \<exists>r'. findACCroutines_calls cfg M Is r = Inr r' \<and> dom r \<subseteq> dom r' \<and>
          dom r' \<subseteq> dom r \<union> getName ` set M"
proof (induction cfg M F r and cfg M Is r rule: findACCroutines_findACCroutines_calls.induct)
  case (1 cfg M F r)
  show ?case
  proof (cases "isDeclaration F \<or> isIntrinsic F \<or> hasAvailableExternallyLinkage F \<or>
      ClEmitOMP cfg \<noteq> ACC")
    case True
    then show ?thesis by (auto simp: findACCroutines.simps)
  next
    case False
    let ?r1 = "if r (getName F) = None then r(getName F \<mapsto> True) else r"
    obtain r' where r':
      "findACCroutines_calls cfg M (concat (map instructions (getBasicBlocks F))) ?r1 = Inr r'"
      "dom ?r1 \<subseteq> dom r'" "dom r' \<subseteq> dom ?r1 \<union> getName ` set M"
      using 1(1) [OF False 1(2) 1(3)] by blast
    have "findACCroutines cfg M F r = Inr r'"
      using False r'(1) by (simp add: findACCroutines.simps)
    moreover have "dom r \<subseteq> dom r'" using r'(2) by (auto split: if_splits)
    moreover have "dom r' \<subseteq> dom r \<union> {getName F} \<union> getName ` set M"
      using r'(3) by (auto split: if_splits)
    ultimately show ?thesis by blast
  qed
next
  case (2 cfg M r)
  then show ?case by simp
next
  case (3 cfg M I Is r)
  have restD: "directCalls M Is" using 3(6) by (simp add: directCalls_def)
  show ?case
  proof (cases "isCallInst I")
    case False
    then show ?thesis using 3(4) [OF False 3(5) restD] by simp
  next
    case True
    with 3(6) obtain n F where n: "getCalledFunction I = Some n" and F: "getFunction M n = Some F"
      by (auto simp: directCalls_def split: option.splits)
    have FM: "F \<in> set M" using F getFunction_Some by blast
    then have Fd: "directCalls M (concat (map instructions (getBasicBlocks F)))"
      using 3(5) by (simp add: closedModule_def list_all_iff)
    show ?thesis
    proof (cases "r (getName F) = None")
      case False
      then obtain y where "r (getName F) = Some y" by blast
      then have "findACCroutines_calls cfg M (I # Is) r = findACCroutines_calls cfg M Is r"
        using True n F by simp
      then show ?thesis using 3(3) [OF True n F False 3(5) restD] by simp
    next
      case None: True
      obtain r1 where r1: "findACCroutines cfg M F r = Inr r1" "dom r \<subseteq> dom r1"
        "dom r1 \<subseteq> dom r \<union> {getName F} \<union> getName ` set M"
        using 3(1) [OF True n F None 3(5) Fd] by blast
      obtain r' where r': "findACCroutines_calls cfg M Is r1 = Inr r'" "dom r1 \<subseteq> dom r'"
        "dom r' \<subseteq> dom r1 \<union> getName ` set M"
        using 3(2) [OF True n F None r1(1) 3(5) restD] by blast
      have "findACCroutines_calls cfg M (I # Is) r = Inr r'"
        using True n F None r1(1) r'(1) by simp
      moreover have "dom r \<subseteq> dom r'" using r1(2) r'(2) by blast
      moreover have "dom r' \<subseteq> dom r \<union> getName ` set M" using r1(3) r'(3) FM by blast
      ultimately show ?thesis by blast
    qed
  qed
qed

text \<open>
  C8. The Routine Closure Builder terminates on every call graph: every call
  \<^verbatim>\<open>findACCroutines(F)\<close>, for any module and any registry, lies in the
  well-founded part of the relation of recursive calls. A call instruction
  whose callee is registered already is skipped, so no function is visited
  again. On a module whose calls are all direct the builder returns a registry,
  which keeps the entries it had and adds only \<open>F\<close> and functions of the
  module. On the call graph F \<rightarrow> G \<rightarrow> F, both functions having a body and
  eligible linkage, with the accelerator target and an empty registry, the
  registry afterwards is exactly F and G.
\<close>

theorem findACCroutines_terminates:
  "findACCroutines_findACCroutines_calls_dom (Inl (cfg, M, F, r)) \<and>
   (isCallInst I \<and> getCalledFunction I = Some n \<and> getFunction M n = Some G \<and>
    r (getName G) \<noteq> None \<longrightarrow>
      findACCroutines_calls cfg M (I # Is) r = findACCroutines_calls cfg M Is r) \<and>
   (closedModule M \<and> directCalls M (concat (map instructions (getBasicBlocks F))) \<longrightarrow>
      (\<exists>r'. findACCroutines cfg M F r = Inr r' \<and> dom r \<subseteq> dom r' \<and>
            dom r' \<subseteq> dom r \<union> {getName F} \<union> getName ` set M)) \<and>
   findACCroutines cfgCoalescingACC [cycleF, cycleG] cycleF Map.empty =
     Inr [''F'' \<mapsto> True, ''G'' \<mapsto> True]"
proof (intro conjI impI)
  show "findACCroutines_findACCroutines_calls_dom (Inl (cfg, M, F, r))"
    using findACCroutines_total by blast
next
  assume "isCallInst I \<and> getCalledFunction I = Some n \<and> getFunction M n = Some G \<and>
    r (getName G) \<noteq> None"
  then show "findACCroutines_calls cfg M (I # Is) r = findACCroutines_calls cfg M Is r"
    by auto
next
  assume "closedModule M \<and> directCalls M (concat (map instructions (getBasicBlocks F)))"
  then show "\<exists>r'. findACCroutines cfg M F r = Inr r' \<and> dom r \<subseteq> dom r' \<and>
            dom r' \<subseteq> dom r \<union> {getName F} \<union> getName ` set M"
    using findACCroutines_returns(1) by blast
next
  show "findACCroutines cfgCoalescingACC [cycleF, cycleG] cycleF Map.empty =
     Inr [''F'' \<mapsto> True, ''G'' \<mapsto> True]"
    by (simp add: findACCroutines.simps cfgCoalescingACC_def cycleF_def cycleG_def callTo_def
        brPlain_def instructions_def getFunction_def)
qed

theorem findACCroutines_terminates_witness:
  "closedModule [cycleF, cycleG] \<and>
   directCalls [cycleF, cycleG] (concat (map instructions (getBasicBlocks cycleF))) \<and>
   isCallInst (callTo ''F'') \<and> getCalledFunction (callTo ''F'') = Some ''F'' \<and>
   getFunction [cycleF, cycleG] ''F'' = Some cycleF \<and>
   [''F'' \<mapsto> True] (getName cycleF) \<noteq> None \<and>
   findACCroutines_calls cfgCoalescingACC [cycleF, cycleG] [callTo ''F''] [''F'' \<mapsto> True] =
     Inr [''F'' \<mapsto> True] \<and>
   (\<exists>r'. findACCroutines cfgCoalescingACC [cycleF, cycleG] cycleF Map.empty = Inr r' \<and>
         dom r' \<subseteq> {''F'', ''G''})"
proof -
  have a: "closedModule [cycleF, cycleG]"
    by (simp add: closedModule_def directCalls_def cycleF_def cycleG_def callTo_def brPlain_def
        instructions_def getFunction_def)
  have b: "directCalls [cycleF, cycleG] (concat (map instructions (getBasicBlocks cycleF)))"
    by (simp add: directCalls_def cycleF_def cycleG_def callTo_def brPlain_def
        instructions_def getFunction_def)
  have c: "isCallInst (callTo ''F'') \<and> getCalledFunction (callTo ''F'') = Some ''F'' \<and>
    getFunction [cycleF, cycleG] ''F'' = Some cycleF \<and> [''F'' \<mapsto> True] (getName cycleF) \<noteq> None"
    by (simp add: callTo_def getFunction_def cycleF_def)
  note t = findACCroutines_terminates [of cfgCoalescingACC "[cycleF, cycleG]" cycleF Map.empty
      "callTo ''F''" "''F''" cycleF "[]"]
  note t2 = findACCroutines_terminates [of cfgCoalescingACC "[cycleF, cycleG]" cycleF
      "[''F'' \<mapsto> True]" "callTo ''F''" "''F''" cycleF "[]"]
  have d: "findACCroutines_calls cfgCoalescingACC [cycleF, cycleG] [callTo ''F'']
      [''F'' \<mapsto> True] = Inr [''F'' \<mapsto> True]"
    using c t2 by simp
  have e: "\<exists>r'. findACCroutines cfgCoalescingACC [cycleF, cycleG] cycleF Map.empty = Inr r' \<and>
         dom r' \<subseteq> {''F'', ''G''}"
    using a b t by (auto simp: cycleF_def cycleG_def)
  show ?thesis using a b c d e by blast
qed


subsection \<open>What the traversals do to the counters\<close>

lemma consecutive_append:
  "consecutive k (xs @ ys) = (consecutive k xs \<and> consecutive (k + int (length xs)) ys)"
  by (induction xs arbitrary: k) (auto simp: add.assoc)


lemma unchanged_refl: "unchanged s s"
  by (simp add: unchanged_def)

lemma unchanged_trans: "unchanged s s1 \<Longrightarrow> unchanged s1 s2 \<Longrightarrow> unchanged s s2"
  by (simp add: unchanged_def)

lemma advances_refl: "advances s s"
  by (simp add: advances_def)

lemma unchanged_advances: "unchanged s s' \<Longrightarrow> advances s s'"
  by (simp add: advances_def unchanged_def)

lemma advances_trans:
  assumes "advances s s1" and "advances s1 s2"
  shows "advances s s2"
proof -
  from assms(1) obtain ds where ds: "descriptors s1 = descriptors s @ ds"
    "consecutive (NewVars s) (map sequence ds)" "NewVars s1 = NewVars s + int (length ds)"
    "numFLC s1 = numFLC s"
    by (auto simp: advances_def)
  from assms(2) obtain es where es: "descriptors s2 = descriptors s1 @ es"
    "consecutive (NewVars s1) (map sequence es)" "NewVars s2 = NewVars s1 + int (length es)"
    "numFLC s2 = numFLC s1"
    by (auto simp: advances_def)
  have "descriptors s2 = descriptors s @ (ds @ es)" using ds es by simp
  moreover have "consecutive (NewVars s) (map sequence (ds @ es))"
    using ds es by (simp add: consecutive_append)
  moreover have "NewVars s2 = NewVars s + int (length (ds @ es))" using ds es by simp
  ultimately show ?thesis using ds(4) es(4) unfolding advances_def by metis
qed

lemma denotateLoopParallel_unchanged:
  "unchanged s (denotateLoopParallel cfg L c s)"
  "unchanged s (denotateLoopParallel_SubLoops cfg Ls c s)"
proof (induction cfg L c s and cfg Ls c s
    rule: denotateLoopParallel_denotateLoopParallel_SubLoops.induct)
  case (1 cfg header latch startLine SubLoops bs condition s)
  then show ?case
    by (auto simp: Let_def unchanged_def split: option.splits)
next
  case (2 cfg condition s)
  then show ?case by (simp add: unchanged_def)
next
  case (3 cfg SubLoop SubLoops condition s)
  then show ?case using unchanged_trans by simp
qed

lemma marknumWL_unchanged:
  "unchanged s (marknumWL L s)"
  "unchanged s (marknumWL_SubLoops Ls s)"
proof (induction L s and Ls s rule: marknumWL_marknumWL_SubLoops.induct)
  case (1 header latch startLine SubLoops bs s)
  then show ?case by (simp add: unchanged_def)
next
  case (2 s)
  then show ?case by (simp add: unchanged_def)
next
  case (3 SubLoop SubLoops s)
  then show ?case using unchanged_trans by simp
qed

lemma marknumAL_unchanged:
  "unchanged s (marknumAL L s)"
  "unchanged s (marknumAL_SubLoops Ls s)"
proof (induction L s and Ls s rule: marknumAL_marknumAL_SubLoops.induct)
  case (1 header latch startLine SubLoops bs s)
  then show ?case by (simp add: unchanged_def)
next
  case (2 s)
  then show ?case by (simp add: unchanged_def)
next
  case (3 SubLoop SubLoops s)
  then show ?case using unchanged_trans by simp
qed

lemma writeKernels_unchanged: "unchanged s (writeKernels cfg L NAME restric s)"
proof -
  have a: "\<And>s0. unchanged s s0 \<Longrightarrow> unchanged s (marknumWL L (denotateLoopParallel cfg L [] s0))"
    using unchanged_trans denotateLoopParallel_unchanged(1) marknumWL_unchanged(1) by blast
  show ?thesis
    by (auto simp: writeKernels_def Let_def split: option.splits intro!: a)
       (simp_all add: unchanged_def)
qed

lemma annotateAccKernels_blocks_unchanged:
  "unchanged s (annotateAccKernels_blocks cfg an R NAME restric BBs loops s)"
proof (induction BBs arbitrary: loops s)
  case Nil
  then show ?case by (simp add: unchanged_def)
next
  case (Cons BB BBs)
  show ?case
    using Cons.IH writeKernels_unchanged unchanged_trans
    by (auto split: option.splits) blast
qed

lemma annotateAccKernels_unchanged:
  "unchanged s (annotateAccKernels cfg an R NAME restric s)"
  by (simp add: annotateAccKernels_def annotateAccKernels_blocks_unchanged unchanged_refl)

lemma writeComputation_descriptor:
  assumes "writeComputation cfg M an l e R s = Inr s'"
  shows "numFLC s' = numFLC s \<and> NewVars s' = NewVars s + 1 \<and>
         descriptors s' = descriptors s @ [newDescriptor (NewVars s + 1) (OfRegion R) l]"
proof -
  have u: "\<And>NAME restric s3. unchanged s3 (annotateAccKernels cfg an R NAME restric s3)"
    by (rule annotateAccKernels_unchanged)
  show ?thesis
    using assms u
    by (auto simp: writeComputation_def Let_def unchanged_def split: if_splits sum.splits)
qed

lemma writeComputation_closing:
  assumes "writeComputation cfg M an l e R s = Inr s'"
    and "RC_analyzed (analyzeRegion an (''AI'' @ to_string (NewVars s + 1)) (ClEmitOMP cfg) R l
           (RegionsRangeData s))"
  shows "hasFragment (Comments s') e ''}\<newline>''"
  using assms
  by (auto simp: writeComputation_def Let_def newDescriptor_def hasFragment_added
      split: if_splits sum.splits)

lemma singleton_advances:
  "numFLC s' = numFLC s \<Longrightarrow> NewVars s' = NewVars s + 1 \<Longrightarrow>
     descriptors s' = descriptors s @ [newDescriptor (NewVars s + 1) t l] \<Longrightarrow> advances s s'"
  unfolding advances_def by (intro conjI exI [of _ "[newDescriptor (NewVars s + 1) t l]"])
    (simp_all add: newDescriptor_def)

lemma writeComputation_advances:
  "writeComputation cfg M an l e R s = Inr s' \<Longrightarrow> advances s s'"
  using writeComputation_descriptor singleton_advances by blast

lemma regionIdentify_loop_advances:
  assumes "regionIdentify_loop cfg M an l s = Inr s'"
  shows "advances s s'"
proof -
  let ?s0 = "marknumAL l s"
  have u0: "unchanged s ?s0" by (rule marknumAL_unchanged)
  have u1: "\<And>c s3. unchanged s3 (denotateLoopParallel cfg l c s3)"
    by (rule denotateLoopParallel_unchanged)
  have u2: "\<And>s3. unchanged s3 (marknumWL l s3)"
    by (rule marknumWL_unchanged)
  have "unchanged ?s0 s' \<or>
    (numFLC s' = numFLC ?s0 \<and> NewVars s' = NewVars ?s0 + 1 \<and>
     descriptors s' =
       descriptors ?s0 @ [newDescriptor (NewVars ?s0 + 1) (OfLoop l) (getStartLoc l)])"
    using assms u1 u2
    by (auto simp: regionIdentify_loop_def Let_def unchanged_def split: if_splits sum.splits)
  then have "advances ?s0 s'"
    using unchanged_advances singleton_advances by blast
  with u0 show ?thesis using unchanged_advances advances_trans by blast
qed

lemma regionIdentifyCoalescing_advances:
  "regionIdentifyCoalescing cfg M an R s = Inr s' \<Longrightarrow> advances s s'"
  "regionIdentifyCoalescing_subregions cfg M an Rs s = Inr s' \<Longrightarrow> advances s s'"
proof (induction cfg M an R s and cfg M an Rs s arbitrary: s' and s'
    rule: regionIdentifyCoalescing_regionIdentifyCoalescing_subregions.induct)
  case (1 cfg M an entering topLevel bs SRs s)
  let ?R = "Region entering topLevel bs SRs"
  let ?s1 = "s\<lparr>RegionsRangeData := analyzeReducedRegion an ?R (RegionsRangeData s)\<rparr>"
  have s1: "advances s ?s1" by (simp add: advances_def)
  from 1(4) consider
      (a) "regionIdentifyCoalescing_subregions cfg M an SRs s = Inr s'"
        "\<not> isSafeMemoryCoalescing cfg an ?R \<or> \<not> isSafetlyRegionLoops an ?R"
    | (b) "regionIdentifyCoalescing_subregions cfg M an SRs ?s1 = Inr s'"
        "\<not> (\<not> isSafeMemoryCoalescing cfg an ?R \<or> \<not> isSafetlyRegionLoops an ?R)"
        "\<not> RegionsRangeData s ?R \<or> \<not> isSafetly an ?R"
        "returnReducedRegion an ?R = None"
    | (c) RR where "regionIdentifyCoalescing_subregions cfg M an SRs ?s1 = Inr s'"
        "\<not> (\<not> isSafeMemoryCoalescing cfg an ?R \<or> \<not> isSafetlyRegionLoops an ?R)"
        "\<not> RegionsRangeData s ?R \<or> \<not> isSafetly an ?R"
        "returnReducedRegion an ?R = Some RR"
        "\<not> (isSafetly an RR \<and> RegionsRangeData ?s1 RR)"
    | (d) RR l e where "writeComputation cfg M an l e RR ?s1 = Inr s'"
    | (e) l e where "writeComputation cfg M an l e ?R s = Inr s'"
    by (simp add: Let_def split: if_splits option.splits)
  then show ?case
  proof cases
    case a
    then show ?thesis using 1(1) by simp
  next
    case b
    have "advances ?s1 s'"
      using 1(2) [OF refl refl refl b(2) refl b(3) refl b(4) b(1)] .
    with s1 show ?thesis by (rule advances_trans)
  next
    case c
    have "advances ?s1 s'"
      using 1(3) [OF refl refl refl c(2) refl c(3) refl c(4) c(5) c(1)] .
    with s1 show ?thesis by (rule advances_trans)
  next
    case d
    then have "advances ?s1 s'" by (rule writeComputation_advances)
    with s1 show ?thesis by (rule advances_trans)
  next
    case e
    then show ?thesis by (rule writeComputation_advances)
  qed
next
  case (2 cfg M an s)
  then show ?case by (simp add: advances_refl)
next
  case (3 cfg M an SR SRs s)
  then show ?case
    by (auto split: sum.splits intro: advances_trans)
qed

lemma regionIdentify_advances:
  "regionIdentify cfg M an R s = Inr s' \<Longrightarrow> advances s s'"
  "regionIdentify_subregions cfg M an Rs s = Inr s' \<Longrightarrow> advances s s'"
proof (induction cfg M an R s and cfg M an Rs s arbitrary: s' and s'
    rule: regionIdentify_regionIdentify_subregions.induct)
  case (1 cfg M an entering topLevel bs SRs s)
  then show ?case
    by (auto split: list.splits option.splits if_splits intro: regionIdentify_loop_advances)
next
  case (2 cfg M an s)
  then show ?case by (simp add: advances_refl)
next
  case (3 cfg M an SR SRs s)
  then show ?case
    by (auto split: sum.splits intro: advances_trans)
qed

lemma functionIdentify_blocks_unchanged:
  "unchanged s (functionIdentify_blocks an Bs loops s)"
proof (induction Bs arbitrary: loops s)
  case Nil
  show ?case by (simp add: unchanged_def)
next
  case (Cons B Bs)
  have "\<And>loops'. unchanged s (functionIdentify_blocks an Bs loops' (s\<lparr>numL := numL s + 1\<rparr>))"
    using Cons.IH [of "s\<lparr>numL := numL s + 1\<rparr>"] by (simp add: unchanged_def)
  then show ?case using Cons.IH by (auto split: option.splits)
qed

lemma functionIdentify_advances:
  "functionIdentify cfg M an F s = Inr s' \<Longrightarrow> advances s s'"
  using functionIdentify_blocks_unchanged [of s an "getBasicBlocks F" Map.empty]
    regionIdentify_advances(1) regionIdentifyCoalescing_advances(1)
    unchanged_advances advances_trans
  unfolding functionIdentify_def Let_def
  by (metis (full_types))

lemma runOnFunction_advances:
  assumes "runOnFunction cfg M an F s = Inr s'"
  shows "numFLC s' = numFLC s \<and>
    (\<exists>ds. descriptors s' = descriptors s @ ds \<and> consecutive 0 (map sequence ds) \<and>
       NewVars s' = int (length ds))"
  using functionIdentify_advances [OF assms [unfolded runOnFunction_def]]
  by (simp add: advances_def)

lemma run_numFLC: "run cfg M fs s = Inr s' \<Longrightarrow> numFLC s' = numFLC s"
proof (induction fs arbitrary: s)
  case Nil
  then show ?case by simp
next
  case (Cons a fs)
  obtain an F where a: "a = (an, F)" by (cases a)
  from Cons.prems a obtain s1 where s1: "runOnFunction cfg M an F s = Inr s1"
    and rest: "run cfg M fs s1 = Inr s'"
    by (auto split: sum.splits)
  show ?case using runOnFunction_advances [OF s1] Cons.IH [OF rest] by simp
qed

lemmas example_defs = exBlock_def exLoop_def exInnerRegion_def exOuterRegion_def exRecover_def
  exAnalyses_def exFunction_def exState_def initialState_def cfgCoalescingACC_def cfgLoopACC_def
  cycleF_def cycleG_def callTo_def brPlain_def

lemmas traversal_defs = writeComputation_def regionIdentify_loop_def functionIdentify_def
  runOnFunction_def isSafeMemoryCoalescing_def isLoopAnalyzable_def regionofBasicBlock_def
  annotateAccKernels_def writeKernels_def addCommentToLine_def newDescriptor_def
  kernelsPragma_def instructions_def getFunction_def findACCroutines.simps ACC_def
  ERROR_VALUE_def Let_def

text \<open>
  C10. The counter of safe call instructions inside loops is never
  incremented during a run: \<^verbatim>\<open>runOnFunction\<close> leaves \<^verbatim>\<open>numFLC\<close> as it finds it,
  for every function, program and configuration, so that it is 0 at the end of
  a run that starts with the counters at 0. Only \<^verbatim>\<open>analyzeCalls\<close> increments it,
  and no traversal calls \<^verbatim>\<open>analyzeCalls\<close>.
\<close>

theorem numFLC_never_incremented:
  "(runOnFunction cfg M an F s = Inr s' \<longrightarrow> numFLC s' = numFLC s) \<and>
   (run cfg M fs initialState = Inr s'' \<longrightarrow> numFLC s'' = 0)"
  using runOnFunction_advances [of cfg M an F s s'] run_numFLC [of cfg M fs initialState s'']
  by (simp add: initialState_def)

text \<open>
  The witness runs the loop-parallel traversal on two functions whose loop
  holds a named call instruction, which \<^verbatim>\<open>analyzeCalls\<close> would count.
\<close>

theorem numFLC_never_incremented_witness:
  "\<not> isl (runOnFunction cfgLoopACC [cycleF, cycleG] exAnalyses (exFunction ''f'') initialState) \<and>
   \<not> isl (run cfgLoopACC [cycleF, cycleG]
            [(exAnalyses, exFunction ''f''), (exAnalyses, exFunction ''g'')] initialState) \<and>
   numFLCOf (runOnFunction cfgLoopACC [cycleF, cycleG] exAnalyses (exFunction ''f'')
              initialState) = 0 \<and>
   numFLCOf (run cfgLoopACC [cycleF, cycleG]
              [(exAnalyses, exFunction ''f''), (exAnalyses, exFunction ''g'')] initialState) = 0 \<and>
   numFLC (analyzeCalls exAnalyses exLoop exState) = 1"
proof -
  let ?one = "runOnFunction cfgLoopACC [cycleF, cycleG] exAnalyses (exFunction ''f'') initialState"
  let ?two = "run cfgLoopACC [cycleF, cycleG]
            [(exAnalyses, exFunction ''f''), (exAnalyses, exFunction ''g'')] initialState"
  have one: "\<not> isl ?one"
    by (simp add: example_defs traversal_defs)
  have two: "\<not> isl ?two"
    by (simp add: example_defs traversal_defs)
  from one obtain s1 where s1: "?one = Inr s1" by (cases ?one) simp_all
  from two obtain s2 where s2: "?two = Inr s2" by (cases ?two) simp_all
  have "numFLC s1 = 0"
    using s1 numFLC_never_incremented [of cfgLoopACC "[cycleF, cycleG]" exAnalyses
        "exFunction ''f''" initialState s1]
    by (simp add: initialState_def)
  moreover have "numFLC s2 = 0"
    using s2 numFLC_never_incremented [of cfgLoopACC "[cycleF, cycleG]" exAnalyses
        "exFunction ''f''" initialState s1
        "[(exAnalyses, exFunction ''f''), (exAnalyses, exFunction ''g'')]" s2]
    by simp
  moreover have "numFLC (analyzeCalls exAnalyses exLoop exState) = 1"
    by (simp add: analyzeCalls_def example_defs traversal_defs)
  ultimately show ?thesis using one two s1 s2 by (simp add: numFLCOf_def)
qed


subsection \<open>The sequence counter\<close>





subsection \<open>Regions with incomplete information in the coalescing traversal\<close>

lemma regionIdentifyCoalescing_unfold:
  "regionIdentifyCoalescing cfg M an R s =
     (if \<not> isSafeMemoryCoalescing cfg an R \<or> \<not> isSafetlyRegionLoops an R
      then regionIdentifyCoalescing_subregions cfg M an (subregions R) s
      else if \<not> RegionsRangeData s R \<or> \<not> isSafetly an R
      then (case returnReducedRegion an R of
              None \<Rightarrow>
                regionIdentifyCoalescing_subregions cfg M an (subregions R)
                  (s\<lparr>RegionsRangeData := analyzeReducedRegion an R (RegionsRangeData s)\<rparr>)
            | Some RR \<Rightarrow>
                if isSafetly an RR \<and> analyzeReducedRegion an R (RegionsRangeData s) RR
                then writeComputation cfg M an (getStartRegionLoops an R)
                       (getEndRegionLoops an R + 1) RR
                       (s\<lparr>RegionsRangeData := analyzeReducedRegion an R (RegionsRangeData s)\<rparr>)
                else regionIdentifyCoalescing_subregions cfg M an (subregions R)
                       (s\<lparr>RegionsRangeData := analyzeReducedRegion an R (RegionsRangeData s)\<rparr>))
      else writeComputation cfg M an (getStartRegionLoops an R) (getEndRegionLoops an R + 1) R s)"
  by (cases R) (simp add: Let_def split: option.splits)

lemma regionIdentify_unfold:
  "regionIdentify cfg M an R s =
     (case blocks R of
        [] \<Rightarrow> Inl EmptyRegion
      | B # Bs \<Rightarrow>
          (case getLoopFor an B of
             None \<Rightarrow> regionIdentify_subregions cfg M an (subregions R) s
           | Some l \<Rightarrow>
               if (\<not> isLoopParallel cfg l \<and> ClEmitParallel cfg) \<or>
                  \<not> isLoopAnalyzable an (RegionsRangeData s) l \<or> \<not> isSafetlyRegionLoops an R
               then regionIdentify_subregions cfg M an (subregions R) s
               else regionIdentify_loop cfg M an l s))"
  by (cases R) (simp split: list.splits option.splits)

text \<open>
  C2, as stated, fails: \<^verbatim>\<open>regionIdentifyCoalescing\<close> computes \<^verbatim>\<open>line\<close> and
  \<^verbatim>\<open>lineEnd\<close> from the region \<open>R\<close> it was called with and passes them on with
  the reduced region. In the example the top-level region spans lines 10 to
  20 and its reduced region lines 12 to 15: the reduced region is the one
  analysed, the analysis is given line 10, and the closing marker is at line
  21; the lines 12 and 16 of the reduced region get nothing.
\<close>

theorem reduced_region_lines_counterexample:
  "isSafeMemoryCoalescing cfgCoalescingACC exAnalyses exOuterRegion \<and>
   \<not> RegionsRangeData exState exOuterRegion \<and>
   returnReducedRegion exAnalyses exOuterRegion = Some exInnerRegion \<and>
   isSafetly exAnalyses exInnerRegion \<and> RegionsRangeData exState exInnerRegion \<and>
   getStartRegionLoops exAnalyses exInnerRegion = 12 \<and>
   getEndRegionLoops exAnalyses exInnerRegion = 15 \<and>
   map analysed
     (descriptorsOf (regionIdentifyCoalescing cfgCoalescingACC [cycleF, cycleG] exAnalyses
        exOuterRegion exState)) = [OfRegion exInnerRegion] \<and>
   map atLine
     (descriptorsOf (regionIdentifyCoalescing cfgCoalescingACC [cycleF, cycleG] exAnalyses
        exOuterRegion exState)) = [10] \<and>
   commentsAt (regionIdentifyCoalescing cfgCoalescingACC [cycleF, cycleG] exAnalyses
        exOuterRegion exState) 10 = Some ''#pragma acc data\<newline>'' \<and>
   commentsAt (regionIdentifyCoalescing cfgCoalescingACC [cycleF, cycleG] exAnalyses
        exOuterRegion exState) 21 = Some ''}\<newline>'' \<and>
   commentsAt (regionIdentifyCoalescing cfgCoalescingACC [cycleF, cycleG] exAnalyses
        exOuterRegion exState) 12 = None \<and>
   commentsAt (regionIdentifyCoalescing cfgCoalescingACC [cycleF, cycleG] exAnalyses
        exOuterRegion exState) 16 = None"
  by (simp add: commentsAt_def descriptorsOf_def example_defs traversal_defs)

text \<open>
  C2, amended. When a region \<open>R\<close> passes the safety gate but lacks full
  side-effect information (or fails the safety-reconstruction check), and
  region reduction yields a reduced region that is safety-valid and has
  complete side-effect information, the annotation is made for the reduced
  region: it is the region given to the analysis and to the kernel annotation.
  The line span is the one computed for \<open>R\<close>: the analysis receives the start
  line of \<open>R\<close>, and when it succeeds the closing marker is put at the end line
  of \<open>R\<close> plus one.
\<close>

theorem regionIdentifyCoalescing_reduced:
  assumes "isSafeMemoryCoalescing cfg an R" and "isSafetlyRegionLoops an R"
    and "\<not> RegionsRangeData s R \<or> \<not> isSafetly an R"
    and "returnReducedRegion an R = Some RR" and "isSafetly an RR"
    and "analyzeReducedRegion an R (RegionsRangeData s) RR"
  shows "regionIdentifyCoalescing cfg M an R s =
           writeComputation cfg M an (getStartRegionLoops an R) (getEndRegionLoops an R + 1) RR
             (s\<lparr>RegionsRangeData := analyzeReducedRegion an R (RegionsRangeData s)\<rparr>) \<and>
         (\<forall>s'. regionIdentifyCoalescing cfg M an R s = Inr s' \<longrightarrow>
            descriptors s' =
              descriptors s @
                [newDescriptor (NewVars s + 1) (OfRegion RR) (getStartRegionLoops an R)] \<and>
            (RC_analyzed
               (analyzeRegion an (''AI'' @ to_string (NewVars s + 1)) (ClEmitOMP cfg) RR
                  (getStartRegionLoops an R) (analyzeReducedRegion an R (RegionsRangeData s))) \<longrightarrow>
             hasFragment (Comments s') (getEndRegionLoops an R + 1) ''}\<newline>''))"
proof -
  let ?s1 = "s\<lparr>RegionsRangeData := analyzeReducedRegion an R (RegionsRangeData s)\<rparr>"
  have eq: "regionIdentifyCoalescing cfg M an R s =
      writeComputation cfg M an (getStartRegionLoops an R) (getEndRegionLoops an R + 1) RR ?s1"
    using assms by (simp add: regionIdentifyCoalescing_unfold)
  show ?thesis
  proof (intro conjI allI impI)
    show "regionIdentifyCoalescing cfg M an R s =
      writeComputation cfg M an (getStartRegionLoops an R) (getEndRegionLoops an R + 1) RR ?s1"
      by (rule eq)
  next
    fix s'
    assume r: "regionIdentifyCoalescing cfg M an R s = Inr s'"
    then show "descriptors s' =
        descriptors s @ [newDescriptor (NewVars s + 1) (OfRegion RR) (getStartRegionLoops an R)]"
      using writeComputation_descriptor [of cfg M an _ _ RR ?s1 s'] eq by simp
  next
    fix s'
    assume r: "regionIdentifyCoalescing cfg M an R s = Inr s'"
      and ok: "RC_analyzed
         (analyzeRegion an (''AI'' @ to_string (NewVars s + 1)) (ClEmitOMP cfg) RR
            (getStartRegionLoops an R) (analyzeReducedRegion an R (RegionsRangeData s)))"
    show "hasFragment (Comments s') (getEndRegionLoops an R + 1) ''}\<newline>''"
      using writeComputation_closing [of cfg M an _ _ RR ?s1 s'] r ok eq by simp
  qed
qed

theorem regionIdentifyCoalescing_reduced_witness:
  "isSafeMemoryCoalescing cfgCoalescingACC exAnalyses exOuterRegion \<and>
   isSafetlyRegionLoops exAnalyses exOuterRegion \<and>
   \<not> RegionsRangeData exState exOuterRegion \<and>
   returnReducedRegion exAnalyses exOuterRegion = Some exInnerRegion \<and>
   isSafetly exAnalyses exInnerRegion \<and>
   analyzeReducedRegion exAnalyses exOuterRegion (RegionsRangeData exState) exInnerRegion \<and>
   \<not> isl (regionIdentifyCoalescing cfgCoalescingACC [cycleF, cycleG] exAnalyses exOuterRegion
            exState) \<and>
   map analysed
     (descriptorsOf (regionIdentifyCoalescing cfgCoalescingACC [cycleF, cycleG] exAnalyses
        exOuterRegion exState)) = [OfRegion exInnerRegion] \<and>
   regionIdentifyCoalescing cfgCoalescingACC [cycleF, cycleG] exAnalyses exOuterRegion exState =
     writeComputation cfgCoalescingACC [cycleF, cycleG] exAnalyses 10 21 exInnerRegion exState"
proof -
  let ?res = "regionIdentifyCoalescing cfgCoalescingACC [cycleF, cycleG] exAnalyses exOuterRegion
      exState"
  have h: "isSafeMemoryCoalescing cfgCoalescingACC exAnalyses exOuterRegion"
    "isSafetlyRegionLoops exAnalyses exOuterRegion"
    "\<not> RegionsRangeData exState exOuterRegion \<or> \<not> isSafetly exAnalyses exOuterRegion"
    "returnReducedRegion exAnalyses exOuterRegion = Some exInnerRegion"
    "isSafetly exAnalyses exInnerRegion"
    "analyzeReducedRegion exAnalyses exOuterRegion (RegionsRangeData exState) exInnerRegion"
    by (simp_all add: example_defs isSafeMemoryCoalescing_def)
  note t = regionIdentifyCoalescing_reduced [OF h, of "[cycleF, cycleG]"]
  have nl: "\<not> isl ?res"
    by (simp add: example_defs traversal_defs)
  then obtain s' where s': "?res = Inr s'" by (cases ?res) simp_all
  have d: "descriptors s' =
      descriptors exState @ [newDescriptor (NewVars exState + 1) (OfRegion exInnerRegion)
         (getStartRegionLoops exAnalyses exOuterRegion)]"
    using t s' by blast
  have "map analysed (descriptorsOf ?res) = [OfRegion exInnerRegion]"
    using d s' by (simp add: descriptorsOf_def newDescriptor_def exState_def initialState_def)
  moreover have "?res =
     writeComputation cfgCoalescingACC [cycleF, cycleG] exAnalyses 10 21 exInnerRegion exState"
    using t [THEN conjunct1] by (simp add: exAnalyses_def exState_def)
  ultimately show ?thesis using h nl by (simp add: exState_def exAnalyses_def)
qed


subsection \<open>Safety conservativeness\<close>

text \<open>
  C5, as stated, fails. The top-level region of the example has incomplete
  side-effect information, but region reduction gives a valid reduced region:
  the traversal does not descend into the child regions, it makes the
  annotation attempt at this node (analysis at line 10, the start line of the
  node, and the closing marker at line 21, after its end line). Descending
  into the child region would have annotated lines 12 and 16 instead.
\<close>

theorem incomplete_region_counterexample:
  "\<not> RegionsRangeData exState exOuterRegion \<and>
   subregions exOuterRegion = [exInnerRegion] \<and>
   map atLine
     (descriptorsOf (regionIdentifyCoalescing cfgCoalescingACC [cycleF, cycleG] exAnalyses
        exOuterRegion exState)) = [10] \<and>
   commentsAt (regionIdentifyCoalescing cfgCoalescingACC [cycleF, cycleG] exAnalyses
        exOuterRegion exState) 21 = Some ''}\<newline>'' \<and>
   commentsAt (regionIdentifyCoalescing cfgCoalescingACC [cycleF, cycleG] exAnalyses
        exOuterRegion exState) 16 = None \<and>
   map atLine
     (descriptorsOf (regionIdentifyCoalescing_subregions cfgCoalescingACC [cycleF, cycleG]
        exAnalyses [exInnerRegion] exState)) = [12] \<and>
   commentsAt (regionIdentifyCoalescing_subregions cfgCoalescingACC [cycleF, cycleG]
        exAnalyses [exInnerRegion] exState) 21 = None \<and>
   commentsAt (regionIdentifyCoalescing_subregions cfgCoalescingACC [cycleF, cycleG]
        exAnalyses [exInnerRegion] exState) 16 = Some ''}\<newline>''"
  by (simp add: commentsAt_def descriptorsOf_def example_defs traversal_defs)

text \<open>
  C5, amended. A region node that fails the safety gate of its traversal gets
  no annotation, and its traversal is exactly the traversal of its child
  regions: in the coalescing traversal when \<^verbatim>\<open>isSafeMemoryCoalescing\<close> or
  \<^verbatim>\<open>isSafetlyRegionLoops\<close> fails; in the loop-parallel traversal when the first
  block of the region has no loop, or the loop is not parallel under parallel
  emission, or the loop is not analyzable (incomplete side-effect information
  for the region of its header or of one of its blocks), or
  \<^verbatim>\<open>isSafetlyRegionLoops\<close> fails. In the coalescing traversal a region that
  passes the gate but has incomplete side-effect information (or is unsafe for
  the reconstruction oracle) is handed to region reduction first: without a
  valid reduced region the traversal again is that of the child regions; with
  one, the annotation attempt is made for the reduced region and the traversal
  does not descend.
\<close>

theorem safety_conservativeness:
  "(\<not> isSafeMemoryCoalescing cfg an R \<or> \<not> isSafetlyRegionLoops an R \<longrightarrow>
      regionIdentifyCoalescing cfg M an R s =
        regionIdentifyCoalescing_subregions cfg M an (subregions R) s) \<and>
   (isSafeMemoryCoalescing cfg an R \<and> isSafetlyRegionLoops an R \<and>
    (\<not> RegionsRangeData s R \<or> \<not> isSafetly an R) \<and>
    (\<forall>RR. returnReducedRegion an R = Some RR \<longrightarrow>
       \<not> (isSafetly an RR \<and> analyzeReducedRegion an R (RegionsRangeData s) RR)) \<longrightarrow>
      regionIdentifyCoalescing cfg M an R s =
        regionIdentifyCoalescing_subregions cfg M an (subregions R)
          (s\<lparr>RegionsRangeData := analyzeReducedRegion an R (RegionsRangeData s)\<rparr>)) \<and>
   (isSafeMemoryCoalescing cfg an R \<and> isSafetlyRegionLoops an R \<and>
    (\<not> RegionsRangeData s R \<or> \<not> isSafetly an R) \<and>
    returnReducedRegion an R = Some RR \<and> isSafetly an RR \<and>
    analyzeReducedRegion an R (RegionsRangeData s) RR \<longrightarrow>
      regionIdentifyCoalescing cfg M an R s =
        writeComputation cfg M an (getStartRegionLoops an R) (getEndRegionLoops an R + 1) RR
          (s\<lparr>RegionsRangeData := analyzeReducedRegion an R (RegionsRangeData s)\<rparr>)) \<and>
   (blocks R = B # Bs \<and>
    (getLoopFor an B = None \<or>
     (\<exists>l. getLoopFor an B = Some l \<and>
        ((\<not> isLoopParallel cfg l \<and> ClEmitParallel cfg) \<or>
         \<not> isLoopAnalyzable an (RegionsRangeData s) l \<or> \<not> isSafetlyRegionLoops an R))) \<longrightarrow>
      regionIdentify cfg M an R s = regionIdentify_subregions cfg M an (subregions R) s)"
proof (intro conjI impI)
  assume "\<not> isSafeMemoryCoalescing cfg an R \<or> \<not> isSafetlyRegionLoops an R"
  then show "regionIdentifyCoalescing cfg M an R s =
        regionIdentifyCoalescing_subregions cfg M an (subregions R) s"
    by (simp add: regionIdentifyCoalescing_unfold)
next
  assume "isSafeMemoryCoalescing cfg an R \<and> isSafetlyRegionLoops an R \<and>
    (\<not> RegionsRangeData s R \<or> \<not> isSafetly an R) \<and>
    (\<forall>RR. returnReducedRegion an R = Some RR \<longrightarrow>
       \<not> (isSafetly an RR \<and> analyzeReducedRegion an R (RegionsRangeData s) RR))"
  then show "regionIdentifyCoalescing cfg M an R s =
        regionIdentifyCoalescing_subregions cfg M an (subregions R)
          (s\<lparr>RegionsRangeData := analyzeReducedRegion an R (RegionsRangeData s)\<rparr>)"
    by (auto simp: regionIdentifyCoalescing_unfold split: option.splits)
next
  assume "isSafeMemoryCoalescing cfg an R \<and> isSafetlyRegionLoops an R \<and>
    (\<not> RegionsRangeData s R \<or> \<not> isSafetly an R) \<and>
    returnReducedRegion an R = Some RR \<and> isSafetly an RR \<and>
    analyzeReducedRegion an R (RegionsRangeData s) RR"
  then show "regionIdentifyCoalescing cfg M an R s =
        writeComputation cfg M an (getStartRegionLoops an R) (getEndRegionLoops an R + 1) RR
          (s\<lparr>RegionsRangeData := analyzeReducedRegion an R (RegionsRangeData s)\<rparr>)"
    by (simp add: regionIdentifyCoalescing_unfold)
next
  assume "blocks R = B # Bs \<and>
    (getLoopFor an B = None \<or>
     (\<exists>l. getLoopFor an B = Some l \<and>
        ((\<not> isLoopParallel cfg l \<and> ClEmitParallel cfg) \<or>
         \<not> isLoopAnalyzable an (RegionsRangeData s) l \<or> \<not> isSafetlyRegionLoops an R)))"
  then show "regionIdentify cfg M an R s = regionIdentify_subregions cfg M an (subregions R) s"
    by (auto simp: regionIdentify_unfold)
qed

text \<open>
  The witness takes the four cases in turn: a region without entering block
  that is not top-level; the example region when reduction finds no region;
  the example region with its reduced region; and the loop-parallel traversal
  of a region whose first block is in no loop.
\<close>

theorem safety_conservativeness_witness:
  "\<not> isSafeMemoryCoalescing cfgCoalescingACC exAnalyses (Region None False [exBlock] []) \<and>
   regionIdentifyCoalescing cfgCoalescingACC [cycleF, cycleG] exAnalyses
     (Region None False [exBlock] []) exState = Inr exState \<and>
   isSafeMemoryCoalescing cfgCoalescingACC exAnalyses exOuterRegion \<and>
   isSafetlyRegionLoops exAnalyses exOuterRegion \<and>
   \<not> RegionsRangeData exState exOuterRegion \<and>
   returnReducedRegion (exAnalyses\<lparr>returnReducedRegion := (\<lambda>R. None)\<rparr>) exOuterRegion = None \<and>
   regionIdentifyCoalescing cfgCoalescingACC [cycleF, cycleG]
     (exAnalyses\<lparr>returnReducedRegion := (\<lambda>R. None)\<rparr>) exOuterRegion exState =
     regionIdentifyCoalescing_subregions cfgCoalescingACC [cycleF, cycleG]
       (exAnalyses\<lparr>returnReducedRegion := (\<lambda>R. None)\<rparr>) [exInnerRegion] exState \<and>
   returnReducedRegion exAnalyses exOuterRegion = Some exInnerRegion \<and>
   isSafetly exAnalyses exInnerRegion \<and>
   analyzeReducedRegion exAnalyses exOuterRegion (RegionsRangeData exState) exInnerRegion \<and>
   regionIdentifyCoalescing cfgCoalescingACC [cycleF, cycleG] exAnalyses exOuterRegion exState =
     writeComputation cfgCoalescingACC [cycleF, cycleG] exAnalyses 10 21 exInnerRegion exState \<and>
   blocks exInnerRegion = [exBlock] \<and>
   getLoopFor (exAnalyses\<lparr>getLoopFor := (\<lambda>BB. None)\<rparr>) exBlock = None \<and>
   regionIdentify cfgLoopACC [cycleF, cycleG] (exAnalyses\<lparr>getLoopFor := (\<lambda>BB. None)\<rparr>)
     exInnerRegion exState = Inr exState"
proof -
  let ?M = "[cycleF, cycleG]"
  let ?R0 = "Region None False [exBlock] []"
  let ?an2 = "exAnalyses\<lparr>returnReducedRegion := (\<lambda>R. None)\<rparr>"
  let ?an4 = "exAnalyses\<lparr>getLoopFor := (\<lambda>BB. None)\<rparr>"
  have h1: "\<not> isSafeMemoryCoalescing cfgCoalescingACC exAnalyses ?R0"
    by (simp add: isSafeMemoryCoalescing_def)
  have c1: "regionIdentifyCoalescing cfgCoalescingACC ?M exAnalyses ?R0 exState = Inr exState"
    using h1 safety_conservativeness [of cfgCoalescingACC exAnalyses ?R0 ?M exState]
    by simp
  have h2: "isSafeMemoryCoalescing cfgCoalescingACC exAnalyses exOuterRegion"
    "isSafetlyRegionLoops exAnalyses exOuterRegion"
    "\<not> RegionsRangeData exState exOuterRegion"
    "returnReducedRegion ?an2 exOuterRegion = None"
    by (simp_all add: example_defs isSafeMemoryCoalescing_def)
  have h2': "isSafeMemoryCoalescing cfgCoalescingACC ?an2 exOuterRegion"
    "isSafetlyRegionLoops ?an2 exOuterRegion"
    by (simp_all add: example_defs isSafeMemoryCoalescing_def)
  have c2: "regionIdentifyCoalescing cfgCoalescingACC ?M ?an2 exOuterRegion exState =
     regionIdentifyCoalescing_subregions cfgCoalescingACC ?M ?an2 [exInnerRegion] exState"
    using h2 h2' safety_conservativeness [of cfgCoalescingACC ?an2 exOuterRegion ?M exState,
        THEN conjunct2, THEN conjunct1]
    by (simp add: exAnalyses_def exOuterRegion_def exState_def)
  have h3: "returnReducedRegion exAnalyses exOuterRegion = Some exInnerRegion"
    "isSafetly exAnalyses exInnerRegion"
    "analyzeReducedRegion exAnalyses exOuterRegion (RegionsRangeData exState) exInnerRegion"
    by (simp_all add: example_defs)
  have c3: "regionIdentifyCoalescing cfgCoalescingACC ?M exAnalyses exOuterRegion exState =
     writeComputation cfgCoalescingACC ?M exAnalyses 10 21 exInnerRegion exState"
    using h2 h3 safety_conservativeness [of cfgCoalescingACC exAnalyses exOuterRegion ?M exState
        exInnerRegion, THEN conjunct2, THEN conjunct2, THEN conjunct1]
    by (simp add: exAnalyses_def exState_def)
  have h4: "blocks exInnerRegion = [exBlock]" "getLoopFor ?an4 exBlock = None"
    by (simp_all add: example_defs)
  have c4: "regionIdentify cfgLoopACC ?M ?an4 exInnerRegion exState = Inr exState"
    using h4 safety_conservativeness [of cfgLoopACC ?an4 exInnerRegion ?M exState _ exBlock "[]",
        THEN conjunct2, THEN conjunct2, THEN conjunct2]
    by (simp add: exInnerRegion_def)
  show ?thesis
    using h1 c1 h2 c2 h3 c3 h4 c4 by blast
qed


end
